theory Spec2Isabelle
  imports Main "HOL-Library.AList" "HOL-Library.Multiset"
begin

section \<open>The message reconciliation and delivery buffer\<close>

text \<open>
  The repository holds two variants of the backend server, both called \<^verbatim>\<open>backend.js\<close>
  in their header comment: \<^verbatim>\<open>src/backend.js\<close> (bot replies are fetched from the vendor
  by a monitoring interval) and \<^verbatim>\<open>src/unnamed/part_001\<close> (bot replies are pushed by a
  webhook, and the webhook handler ends with a cleanup pass). They share the storage
  (\<^verbatim>\<open>botMessages\<close>, \<^verbatim>\<open>globalMessages\<close>, \<^verbatim>\<open>userMessages\<close>,
  \<^verbatim>\<open>global.conversationTimeouts\<close>), the tracking endpoint and the polling endpoint.

  JavaScript objects and arrays are shared by reference: after finalization
  \<^verbatim>\<open>conversationData.messages\<close> is the very array stored in \<^verbatim>\<open>globalMessages\<close>, and the
  message objects of a filtered copy are the objects of the original. The model therefore
  keeps an explicit store: references are natural numbers, handed out by one counter, and
  three heaps map a reference to a conversation-data object, an array or a message. Pending
  timers of the event loop are a fourth map, from timer handle to due time and callback.

  Conventions: strings are lists of \<^typ>\<open>char\<close>; timestamps (milliseconds, \<^verbatim>\<open>Date.now()\<close>) are
  \<^typ>\<open>int\<close>; one callback turn reads one clock value \<open>now\<close>; an ISO time string is
  represented by the instant it denotes; a JavaScript value that is \<^verbatim>\<open>undefined\<close> or
  \<^verbatim>\<open>null\<close> is \<^term>\<open>None\<close>.
\<close>

subsection \<open>Data\<close>

type_synonym conv_id = string
type_synonym ref = nat
type_synonym handle = nat

text \<open>
  The \<^verbatim>\<open>id\<close> of a stored message is the vendor's id (\<^verbatim>\<open>msg.id\<close>, monitoring path), or one of
  the template strings \<^verbatim>\<open>bot-msg-${messageTimestamp}-${random}\<close> and
  \<^verbatim>\<open>bot-fallback-${messageTimestamp}\<close> (webhook path), kept here by their components.
\<close>

datatype message_id =
    Vendor_Id string
  | Bot_Msg int string
  | Bot_Fallback int

record message =
  msg_id :: message_id
  msg_text :: "string option"
  msg_image :: "string option"
  msg_timestamp :: int
  msg_receivedAt :: int
  msg_delivered :: bool

record conversation_data =
  messages :: ref
  lastDelivered :: int
  allMessagesReceived :: bool
  deliveryTimeoutId :: "handle option"

record user_message =
  um_text :: string
  um_timestamp :: int
  um_trackedAt :: int

text \<open>
  The three timer callbacks of the source: the body of the timeout armed by the monitoring
  interval (\<^verbatim>\<open>finalizeMessages(conversationId)\<close>), the timeout armed by the webhook for a
  message flagged \<^verbatim>\<open>isBot\<close> (closing over \<^verbatim>\<open>conversationId\<close>), and the timeout armed by the
  webhook's fallback branch (closing over the \<^verbatim>\<open>conversationData\<close> object).
\<close>

datatype callback =
    Finalize_Messages conv_id
  | Finalize_Timeout conv_id
  | Fallback_Timeout ref

record timer =
  due :: int
  callback :: callback

record state =
  botMessages :: "(conv_id \<times> ref) list"
  globalMessages :: "conv_id \<rightharpoonup> ref"
  userMessages :: "(conv_id \<times> user_message) list"
  conversationTimeouts :: "conv_id \<rightharpoonup> handle"
  objects :: "ref \<Rightarrow> conversation_data"
  arrays :: "ref \<Rightarrow> ref list"
  msgs :: "ref \<Rightarrow> message"
  timers :: "handle \<rightharpoonup> timer"
  fresh :: nat

text \<open>
  \<^verbatim>\<open>botMessages\<close> and \<^verbatim>\<open>userMessages\<close> are JavaScript \<^verbatim>\<open>Map\<close>s, which iterate in insertion
  order: association lists, with \<^const>\<open>map_of\<close> for \<^verbatim>\<open>get\<close>, \<^const>\<open>AList.update\<close> for
  \<^verbatim>\<open>set\<close> and \<^const>\<open>AList.delete\<close> for \<^verbatim>\<open>delete\<close>. The \<^verbatim>\<open>webhookQueue\<close> map of
  \<^verbatim>\<open>part_001\<close> is never written to and is left out.
\<close>

text \<open>Initially nothing is stored and no reference has been handed out; the heaps hold
  blank cells.\<close>

definition blank_object :: conversation_data where
  "blank_object =
     \<lparr>messages = 0, lastDelivered = 0, allMessagesReceived = False, deliveryTimeoutId = None\<rparr>"

definition blank_message :: message where
  "blank_message =
     \<lparr>msg_id = Vendor_Id [], msg_text = None, msg_image = None, msg_timestamp = 0,
      msg_receivedAt = 0, msg_delivered = False\<rparr>"

definition initial_state :: state where
  "initial_state =
     \<lparr>botMessages = [], globalMessages = Map.empty, userMessages = [],
      conversationTimeouts = Map.empty, objects = (\<lambda>_. blank_object), arrays = (\<lambda>_. []),
      msgs = (\<lambda>_. blank_message), timers = Map.empty, fresh = 0\<rparr>"

subsection \<open>Store and timer primitives\<close>

definition new_array :: "ref list \<Rightarrow> state \<Rightarrow> ref \<times> state" where
  "new_array xs s = (fresh s, s\<lparr>arrays := (arrays s)(fresh s := xs), fresh := Suc (fresh s)\<rparr>)"

definition new_message :: "message \<Rightarrow> state \<Rightarrow> ref \<times> state" where
  "new_message m s = (fresh s, s\<lparr>msgs := (msgs s)(fresh s := m), fresh := Suc (fresh s)\<rparr>)"

definition new_object :: "conversation_data \<Rightarrow> state \<Rightarrow> ref \<times> state" where
  "new_object v s = (fresh s, s\<lparr>objects := (objects s)(fresh s := v), fresh := Suc (fresh s)\<rparr>)"

definition setTimeout :: "callback \<Rightarrow> int \<Rightarrow> state \<Rightarrow> handle \<times> state" where
  "setTimeout cb at s =
     (fresh s, s\<lparr>timers := (timers s)(fresh s \<mapsto> \<lparr>due = at, callback = cb\<rparr>),
                 fresh := Suc (fresh s)\<rparr>)"

definition clearTimeout :: "handle \<Rightarrow> state \<Rightarrow> state" where
  "clearTimeout h s = s\<lparr>timers := (timers s)(h := None)\<rparr>"

text \<open>\<^verbatim>\<open>array.push(m)\<close> and \<^verbatim>\<open>array.sort((a, b) => a.timestamp - b.timestamp)\<close>, in place;
  the sort of JavaScript is stable, as \<^const>\<open>sort_key\<close> is.\<close>

definition push :: "ref \<Rightarrow> ref list \<Rightarrow> state \<Rightarrow> state" where
  "push a ms s = s\<lparr>arrays := (arrays s)(a := arrays s a @ ms)\<rparr>"

definition by_timestamp :: "state \<Rightarrow> ref list \<Rightarrow> ref list" where
  "by_timestamp s ms = sort_key (\<lambda>m. msg_timestamp (msgs s m)) ms"

definition sort_in_place :: "ref \<Rightarrow> state \<Rightarrow> state" where
  "sort_in_place a s = s\<lparr>arrays := (arrays s)(a := by_timestamp s (arrays s a))\<rparr>"

text \<open>Truthiness of an optional string: \<^verbatim>\<open>undefined\<close>, \<^verbatim>\<open>null\<close> and \<^verbatim>\<open>""\<close> are falsy.\<close>

fun truthy :: "string option \<Rightarrow> bool" where
  "truthy None = False"
| "truthy (Some x) = (x \<noteq> [])"

definition or_null :: "string option \<Rightarrow> string option" where
  "or_null x = (if truthy x then x else None)"

subsection \<open>Tracking a user message (both variants)\<close>

datatype track_response = Success | Bad_Request

text \<open>Two pieces that the tracking endpoint and the cleanup pass of the webhook share:
  clearing the delivery timeout an entry holds, and deleting an entry after doing so.\<close>

definition cancel_delivery :: "ref \<Rightarrow> state \<Rightarrow> state" where
  "cancel_delivery d s =
     (case deliveryTimeoutId (objects s d) of
        None \<Rightarrow> s
      | Some h \<Rightarrow> clearTimeout h s)"

definition delete_entry :: "conv_id \<Rightarrow> ref \<Rightarrow> state \<Rightarrow> state" where
  "delete_entry key d s =
     (let s1 = cancel_delivery d s in s1\<lparr>botMessages := AList.delete key (botMessages s1)\<rparr>)"

definition cleanup_previous :: "conv_id \<Rightarrow> state \<Rightarrow> state" where
  "cleanup_previous c s =
     (let s1 = (case map_of (botMessages s) c of
                  None \<Rightarrow> s
                | Some d \<Rightarrow> delete_entry c d s)
      in s1\<lparr>globalMessages := (globalMessages s1)(c := None)\<rparr>)"

definition track_user_message ::
  "int \<Rightarrow> string option \<Rightarrow> string option \<Rightarrow> state \<Rightarrow> track_response \<times> state" where
  "track_user_message now conversationId text s =
     (if \<not> truthy conversationId \<or> \<not> truthy text then (Bad_Request, s)
      else
        (let c = the conversationId;
             s1 = cleanup_previous c s
         in (Success,
             s1\<lparr>userMessages :=
                  AList.update c \<lparr>um_text = the text, um_timestamp = now, um_trackedAt = now\<rparr>
                    (userMessages s1)\<rparr>)))"

subsection \<open>Polling for the bot response (both variants)\<close>

datatype poll_response =
    Messages "ref list"
  | All_Delivered
  | Still_Collecting nat bool
  | No_Messages

text \<open>The \<^verbatim>\<open>conversationData\<close> the handler works on: the entry of \<^verbatim>\<open>botMessages\<close>, or the
  fallback built from \<^verbatim>\<open>globalMessages\<close>.\<close>

definition conversationData :: "state \<Rightarrow> conv_id \<Rightarrow> conversation_data option" where
  "conversationData s c =
     (case map_of (botMessages s) c of
        Some d \<Rightarrow> Some (objects s d)
      | None \<Rightarrow>
          (case globalMessages s c of
             Some a \<Rightarrow> Some \<lparr>messages = a, lastDelivered = 0,
                              allMessagesReceived = (conversationTimeouts s c = None),
                              deliveryTimeoutId = None\<rparr>
           | None \<Rightarrow> None))"

definition undelivered :: "state \<Rightarrow> ref list \<Rightarrow> ref list" where
  "undelivered s ms = filter (\<lambda>m. \<not> msg_delivered (msgs s m)) ms"

text \<open>\<^verbatim>\<open>undeliveredMessages.forEach(msg => { msg.delivered = true; })\<close>\<close>

definition set_delivered :: "ref \<Rightarrow> state \<Rightarrow> state" where
  "set_delivered m s = s\<lparr>msgs := (msgs s)(m := (msgs s m)\<lparr>msg_delivered := True\<rparr>)\<rparr>"

definition mark_delivered :: "ref list \<Rightarrow> state \<Rightarrow> state" where
  "mark_delivered ms s = fold set_delivered ms s"

definition bot_response :: "conv_id \<Rightarrow> state \<Rightarrow> poll_response \<times> state" where
  "bot_response c s =
     (case conversationData s c of
        None \<Rightarrow> (No_Messages, s)
      | Some cd \<Rightarrow>
          if length (arrays s (messages cd)) > 0 then
            if allMessagesReceived cd then
              (let undeliveredMessages = by_timestamp s (undelivered s (arrays s (messages cd)))
               in if length undeliveredMessages > 0
                  then (Messages undeliveredMessages, mark_delivered undeliveredMessages s)
                  else (All_Delivered, s))
            else (Still_Collecting (length (arrays s (messages cd)))
                    (conversationTimeouts s c \<noteq> None), s)
          else (No_Messages, s))"

text \<open>The JSON body of a successful response: the message objects as they are after
  marking.\<close>

definition fragments :: "state \<Rightarrow> ref list \<Rightarrow> message list" where
  "fragments s ms = map (msgs s) ms"

subsection \<open>Finalization: the quiet-period callbacks\<close>

text \<open>
  The lookup-or-create of a \<^verbatim>\<open>conversationData\<close> entry, as it is written in
  \<^verbatim>\<open>finalizeMessages\<close>, in the webhook's timeout and in the webhook's fallback branch: a new
  object starts with a new empty array.
\<close>

definition get_or_create :: "conv_id \<Rightarrow> state \<Rightarrow> ref \<times> state" where
  "get_or_create c s =
     (case map_of (botMessages s) c of
        Some d \<Rightarrow> (d, s)
      | None \<Rightarrow>
          (case new_array [] s of
             (a, s1) \<Rightarrow>
               (case new_object \<lparr>messages = a, lastDelivered = 0, allMessagesReceived = False,
                                  deliveryTimeoutId = None\<rparr> s1 of
                  (d, s2) \<Rightarrow> (d, s2\<lparr>botMessages := AList.update c d (botMessages s2)\<rparr>))))"

definition set_ready :: "ref \<Rightarrow> ref \<Rightarrow> state \<Rightarrow> state" where
  "set_ready d a s =
     s\<lparr>objects := (objects s)
          (d := (objects s d)\<lparr>messages := a, allMessagesReceived := True,
                               deliveryTimeoutId := None\<rparr>)\<rparr>"

definition clean_up_tracking :: "conv_id \<Rightarrow> state \<Rightarrow> state" where
  "clean_up_tracking c s =
     s\<lparr>userMessages := AList.delete c (userMessages s),
       conversationTimeouts := (conversationTimeouts s)(c := None)\<rparr>"

text \<open>\<^verbatim>\<open>finalizeMessages\<close> of \<^verbatim>\<open>src/backend.js\<close>: nothing is stored when no message was
  collected.\<close>

definition finalizeMessages :: "conv_id \<Rightarrow> state \<Rightarrow> state" where
  "finalizeMessages c s =
     clean_up_tracking c
       (case globalMessages s c of
          None \<Rightarrow> s
        | Some a \<Rightarrow>
            if length (arrays s a) > 0 then
              (case get_or_create c (sort_in_place a s) of (d, s1) \<Rightarrow> set_ready d a s1)
            else s)"

text \<open>The timeout armed by the webhook of \<^verbatim>\<open>part_001\<close>: \<^verbatim>\<open>globalMessages[conversationId] || []\<close>
  is a new empty array when nothing is stored, and the entry is written in either case.\<close>

definition finalize_timeout :: "conv_id \<Rightarrow> state \<Rightarrow> state" where
  "finalize_timeout c s =
     (case (case globalMessages s c of Some a \<Rightarrow> (a, s) | None \<Rightarrow> new_array [] s) of
        (a, s0) \<Rightarrow>
          (case get_or_create c (sort_in_place a s0) of
             (d, s1) \<Rightarrow> clean_up_tracking c (set_ready d a s1)))"

text \<open>The timeout armed by the fallback branch.\<close>

definition fallback_timeout :: "ref \<Rightarrow> state \<Rightarrow> state" where
  "fallback_timeout d s =
     s\<lparr>objects := (objects s)
          (d := (objects s d)\<lparr>allMessagesReceived := True, deliveryTimeoutId := None\<rparr>)\<rparr>"

fun run_callback :: "callback \<Rightarrow> state \<Rightarrow> state" where
  "run_callback (Finalize_Messages c) s = finalizeMessages c s"
| "run_callback (Finalize_Timeout c) s = finalize_timeout c s"
| "run_callback (Fallback_Timeout d) s = fallback_timeout d s"

text \<open>The event loop runs a pending timer no earlier than it is due, and the timer is no
  longer pending when its callback runs. A handle that is not pending, or not yet due, does
  not fire.\<close>

definition fire :: "int \<Rightarrow> handle \<Rightarrow> state \<Rightarrow> state" where
  "fire now h s =
     (case timers s h of
        None \<Rightarrow> s
      | Some t \<Rightarrow> if due t \<le> now then run_callback (callback t) (clearTimeout h s) else s)"

text \<open>Clearing the registered timeout of a conversation and arming a new one, as both
  variants do after storing a message.\<close>

definition rearm :: "conv_id \<Rightarrow> callback \<Rightarrow> int \<Rightarrow> state \<Rightarrow> state" where
  "rearm c cb at s =
     (let s1 = (case conversationTimeouts s c of None \<Rightarrow> s | Some h \<Rightarrow> clearTimeout h s)
      in case setTimeout cb at s1 of
           (h, s2) \<Rightarrow> s2\<lparr>conversationTimeouts := (conversationTimeouts s2)(c \<mapsto> h)\<rparr>)"

text \<open>\<^verbatim>\<open>if (!globalMessages[conversationId]) globalMessages[conversationId] = []\<close>\<close>

definition global_array :: "conv_id \<Rightarrow> state \<Rightarrow> ref \<times> state" where
  "global_array c s =
     (case globalMessages s c of
        Some a \<Rightarrow> (a, s)
      | None \<Rightarrow>
          (case new_array [] s of
             (a, s1) \<Rightarrow> (a, s1\<lparr>globalMessages := (globalMessages s1)(c \<mapsto> a)\<rparr>)))"

subsection \<open>Collecting by monitoring (\<^verbatim>\<open>src/backend.js\<close>)\<close>

text \<open>A message as the vendor lists it; \<open>createdAt\<close> is the instant the date string denotes.\<close>

record vendor_message =
  vm_id :: string
  vm_userId :: string
  vm_conversationId :: string
  vm_text :: "string option"
  vm_image :: "string option"
  vm_createdAt :: int

definition stored_ids :: "state \<Rightarrow> conv_id \<Rightarrow> message_id list" where
  "stored_ids s c =
     (case globalMessages s c of
        None \<Rightarrow> []
      | Some a \<Rightarrow> map (\<lambda>m. msg_id (msgs s m)) (arrays s a))"

definition is_new_bot_message :: "state \<Rightarrow> conv_id \<Rightarrow> vendor_message \<Rightarrow> bool" where
  "is_new_bot_message s c msg =
     (vm_userId msg \<noteq> vm_conversationId msg \<and>
      (case map_of (userMessages s) c of
         None \<Rightarrow> True
       | Some trackedUserMessage \<Rightarrow> vm_text msg \<noteq> Some (um_text trackedUserMessage)) \<and>
      truthy (vm_text msg) \<and>
      Vendor_Id (vm_id msg) \<notin> set (stored_ids s c))"

definition to_message :: "int \<Rightarrow> vendor_message \<Rightarrow> message" where
  "to_message now msg =
     \<lparr>msg_id = Vendor_Id (vm_id msg), msg_text = or_null (vm_text msg),
      msg_image = or_null (vm_image msg), msg_timestamp = vm_createdAt msg,
      msg_receivedAt = now, msg_delivered = False\<rparr>"

fun new_messages :: "message list \<Rightarrow> state \<Rightarrow> ref list \<times> state" where
  "new_messages [] s = ([], s)"
| "new_messages (m # ms) s =
     (case new_message m s of
        (r, s1) \<Rightarrow> (case new_messages ms s1 of (rs, s2) \<Rightarrow> (r # rs, s2)))"

text \<open>One run of the interval callback of \<^verbatim>\<open>startBotResponseMonitoring\<close>, on the list of
  messages the vendor returned.\<close>

definition monitor_tick :: "int \<Rightarrow> conv_id \<Rightarrow> vendor_message list \<Rightarrow> state \<Rightarrow> state" where
  "monitor_tick now c fetched s =
     (case new_messages (map (to_message now) (filter (is_new_bot_message s c) fetched)) s of
        (newBotMessages, s1) \<Rightarrow>
          if length newBotMessages > 0 then
            (case global_array c s1 of
               (a, s2) \<Rightarrow> rearm c (Finalize_Messages c) (now + 5000) (push a newBotMessages s2))
          else s)"

subsection \<open>Collecting by webhook (\<^verbatim>\<open>part_001\<close>)\<close>

text \<open>
  The handler first extracts \<^verbatim>\<open>conversationId\<close>, \<^verbatim>\<open>botText\<close>, \<^verbatim>\<open>botImage\<close> and \<^verbatim>\<open>isBot\<close> from
  one of three shapes of the request body; the model starts from the extracted values.
  \<^verbatim>\<open>isBot\<close> is \<^verbatim>\<open>true\<close> or \<^verbatim>\<open>"true"\<close>, \<^verbatim>\<open>false\<close> or \<^verbatim>\<open>"false"\<close>, or anything else.
\<close>

datatype is_bot = Is_Bot | Is_User | No_Flag

record webhook_data =
  conversationId :: "string option"
  botText :: "string option"
  botImage :: "string option"
  isBot :: is_bot

text \<open>\<^verbatim>\<open>haystack.includes(needle)\<close>\<close>

fun str_includes :: "string \<Rightarrow> string \<Rightarrow> bool" where
  "str_includes [] needle = (needle = [])"
| "str_includes (x # xs) needle = (take (length needle) (x # xs) = needle \<or> str_includes xs needle)"

definition placeholder :: string where
  "placeholder = ''{{ $json''"

text \<open>The guard shared by the two storing branches:
  \<^verbatim>\<open>conversationId && (botText || botImage) && (!botText || !botText.includes('{{ $json'))\<close>\<close>

definition storable :: "webhook_data \<Rightarrow> bool" where
  "storable p =
     (truthy (conversationId p) \<and> (truthy (botText p) \<or> truthy (botImage p)) \<and>
      (\<not> truthy (botText p) \<or> \<not> str_includes (the (botText p)) placeholder))"

text \<open>
  \<^verbatim>\<open>/[A-Z].*[a-z].*[.!?]/.test(botText)\<close>: a capital, later a small letter, later one of
  \<^verbatim>\<open>.!?\<close>, with no line terminator in between. The scan keeps how much of the pattern has
  been seen on the current line (0, 1 or 2 parts).
\<close>

definition is_upper :: "char \<Rightarrow> bool" where
  "is_upper ch = (65 \<le> (of_char ch :: nat) \<and> (of_char ch :: nat) \<le> 90)"

definition is_lower :: "char \<Rightarrow> bool" where
  "is_lower ch = (97 \<le> (of_char ch :: nat) \<and> (of_char ch :: nat) \<le> 122)"

definition is_line_terminator :: "char \<Rightarrow> bool" where
  "is_line_terminator ch = ((of_char ch :: nat) = 10 \<or> (of_char ch :: nat) = 13)"

fun sentence_like :: "nat \<Rightarrow> string \<Rightarrow> bool" where
  "sentence_like n [] = False"
| "sentence_like n (ch # rest) =
     (if is_line_terminator ch then sentence_like 0 rest
      else if n = 0 then sentence_like (if is_upper ch then 1 else 0) rest
      else if n = 1 then sentence_like (if is_lower ch then 2 else 1) rest
      else (ch \<in> set ''.!?'' \<or> sentence_like n rest))"

definition looksLikeBotResponse :: "string option \<Rightarrow> bool" where
  "looksLikeBotResponse txt =
     (truthy txt \<and>
      (length (the txt) > 20 \<or> str_includes (the txt) ''!'' \<or>
       str_includes (the txt) ''?'' \<or> str_includes (the txt) ''helpen'' \<or>
       str_includes (the txt) ''kan ik'' \<or> sentence_like 0 (the txt)))"

text \<open>The branch for a message flagged as coming from the bot. \<open>rnd\<close> is the random suffix of
  the id.\<close>

definition store_bot_message :: "int \<Rightarrow> string \<Rightarrow> webhook_data \<Rightarrow> state \<Rightarrow> state" where
  "store_bot_message now rnd p s =
     (if storable p then
        (let c = the (conversationId p) in
         case global_array c s of
           (a, s1) \<Rightarrow>
             (case new_message
                     \<lparr>msg_id = Bot_Msg now rnd, msg_text = or_null (botText p),
                      msg_image = or_null (botImage p), msg_timestamp = now,
                      msg_receivedAt = now, msg_delivered = False\<rparr> s1 of
                (newMessage, s2) \<Rightarrow>
                  rearm c (Finalize_Timeout c) (now + 6000) (push a [newMessage] s2)))
      else s)"

text \<open>The branch for a message without the flag.\<close>

definition arm_delivery :: "ref \<Rightarrow> int \<Rightarrow> state \<Rightarrow> state" where
  "arm_delivery d at s =
     (case setTimeout (Fallback_Timeout d) at (cancel_delivery d s) of
        (h, s1) \<Rightarrow>
          s1\<lparr>objects := (objects s1)(d := (objects s1 d)\<lparr>deliveryTimeoutId := Some h\<rparr>)\<rparr>)"

definition accepted_fallback :: "webhook_data \<Rightarrow> state \<Rightarrow> bool" where
  "accepted_fallback p s =
     ((case conversationId p of
         None \<Rightarrow> True
       | Some c \<Rightarrow>
           (case map_of (userMessages s) c of
              None \<Rightarrow> True
            | Some trackedUserMessage \<Rightarrow> botText p \<noteq> Some (um_text trackedUserMessage))) \<and>
      (looksLikeBotResponse (botText p) \<or> truthy (botImage p)) \<and> storable p)"

definition store_fallback :: "int \<Rightarrow> webhook_data \<Rightarrow> state \<Rightarrow> state" where
  "store_fallback now p s =
     (if accepted_fallback p s then
        (let c = the (conversationId p) in
         case get_or_create c s of
           (d, s1) \<Rightarrow>
             (case new_message
                     \<lparr>msg_id = Bot_Fallback now, msg_text = or_null (botText p),
                      msg_image = or_null (botImage p), msg_timestamp = now,
                      msg_receivedAt = now, msg_delivered = False\<rparr> s1 of
                (newMessage, s2) \<Rightarrow>
                  (let a = messages (objects s2 d);
                       s3 = arm_delivery d (now + 6000)
                              (sort_in_place a (push a [newMessage] s2))
                   in s3\<lparr>userMessages := AList.delete c (userMessages s3)\<rparr>)))
      else s)"

text \<open>
  The cleanup pass at the end of the handler. The loop over \<^verbatim>\<open>botMessages.entries()\<close> visits
  the entries in insertion order; its body, for one entry:
\<close>

definition retention :: int where
  "retention = 5 * 60 * 1000"

definition still_receiving :: "state \<Rightarrow> ref \<Rightarrow> bool" where
  "still_receiving s d =
     (\<not> allMessagesReceived (objects s d) \<and> deliveryTimeoutId (objects s d) \<noteq> None)"

definition recent :: "int \<Rightarrow> state \<Rightarrow> ref list \<Rightarrow> ref list" where
  "recent fiveMinutesAgo s ms = filter (\<lambda>m. msg_timestamp (msgs s m) \<ge> fiveMinutesAgo) ms"

definition prune :: "int \<Rightarrow> ref \<Rightarrow> state \<Rightarrow> state" where
  "prune fiveMinutesAgo d s =
     (let filteredMessages = recent fiveMinutesAgo s (arrays s (messages (objects s d)))
      in if length filteredMessages \<noteq> length (arrays s (messages (objects s d)))
         then (case new_array filteredMessages s of
                 (a, s1) \<Rightarrow> s1\<lparr>objects := (objects s1)(d := (objects s1 d)\<lparr>messages := a\<rparr>)\<rparr>)
         else s)"

definition cleanup_entry :: "int \<Rightarrow> conv_id \<times> ref \<Rightarrow> state \<Rightarrow> state" where
  "cleanup_entry fiveMinutesAgo e s =
     (case e of
        (key, d) \<Rightarrow>
          if still_receiving s d then s
          else
            (let s1 = prune fiveMinutesAgo d s
             in if length (arrays s1 (messages (objects s1 d))) = 0
                then delete_entry key d s1
                else s1))"

definition cleanup :: "int \<Rightarrow> state \<Rightarrow> state" where
  "cleanup now s =
     (let fiveMinutesAgo = now - retention;
          s1 = fold (cleanup_entry fiveMinutesAgo) (botMessages s) s
      in s1\<lparr>userMessages :=
               filter (\<lambda>(key, v). \<not> um_timestamp v < fiveMinutesAgo) (userMessages s1)\<rparr>)"

text \<open>The processing of one webhook request: one of the three branches, then the cleanup
  pass. The HTTP response (status 200) has been sent before any of it runs.\<close>

definition botpress_webhook :: "int \<Rightarrow> string \<Rightarrow> webhook_data \<Rightarrow> state \<Rightarrow> state" where
  "botpress_webhook now rnd p s =
     cleanup now
       (case isBot p of
          Is_Bot \<Rightarrow> store_bot_message now rnd p s
        | Is_User \<Rightarrow> s
        | No_Flag \<Rightarrow> store_fallback now p s)"

subsection \<open>Runs\<close>

text \<open>What can happen to the server: a request to one of its endpoints, a run of the
  monitoring interval, or the event loop firing a timer. Each event carries the clock value
  at which it is processed.\<close>

datatype event =
    Track "string option" "string option"
  | Poll conv_id
  | Webhook string webhook_data
  | Monitor conv_id "vendor_message list"
  | Fire handle

fun step :: "int \<times> event \<Rightarrow> state \<Rightarrow> state" where
  "step (now, Track c t) s = snd (track_user_message now c t s)"
| "step (now, Poll c) s = snd (bot_response c s)"
| "step (now, Webhook rnd p) s = botpress_webhook now rnd p s"
| "step (now, Monitor c fetched) s = monitor_tick now c fetched s"
| "step (now, Fire h) s = fire now h s"

definition run :: "(int \<times> event) list \<Rightarrow> state \<Rightarrow> state" where
  "run evs s = fold step evs s"

text \<open>What a poll event hands out, and the list of what the polls of a run hand out.\<close>

fun polled :: "int \<times> event \<Rightarrow> state \<Rightarrow> ref list" where
  "polled (now, Poll c) s = (case fst (bot_response c s) of Messages r \<Rightarrow> r | _ \<Rightarrow> [])"
| "polled (now, _) s = []"

fun deliveries :: "(int \<times> event) list \<Rightarrow> state \<Rightarrow> ref list list" where
  "deliveries [] s = []"
| "deliveries (e # es) s = polled e s # deliveries es (step e s)"

text \<open>Two states in allocation order: no reference is taken back, and no delivered flag of an
  allocated message is reset.\<close>

definition grows :: "state \<Rightarrow> state \<Rightarrow> bool" where
  "grows s s' \<longleftrightarrow>
     fresh s \<le> fresh s' \<and>
     (\<forall>m<fresh s. msg_delivered (msgs s m) \<longrightarrow> msg_delivered (msgs s' m))"

text \<open>
  Well-formed states: the keys and the objects of \<^verbatim>\<open>botMessages\<close> are distinct, and every
  reference and timer handle in use has been handed out by the counter.
\<close>

definition wf :: "state \<Rightarrow> bool" where
  "wf s \<longleftrightarrow>
     distinct (map fst (botMessages s)) \<and> distinct (map snd (botMessages s)) \<and>
     (\<forall>k d. (k, d) \<in> set (botMessages s) \<longrightarrow> d < fresh s \<and> messages (objects s d) < fresh s) \<and>
     (\<forall>c a. globalMessages s c = Some a \<longrightarrow> a < fresh s) \<and>
     (\<forall>a. \<forall>m\<in>set (arrays s a). m < fresh s) \<and>
     (\<forall>h t. timers s h = Some t \<longrightarrow> h < fresh s)"

subsection \<open>Scenarios\<close>

text \<open>Concrete requests and runs, used to exercise the properties below. The webhook
  payloads: a reply flagged \<^verbatim>\<open>isBot\<close> for conversation \<open>c1\<close>, the same reply without the flag,
  an unflagged reply for conversation \<open>c2\<close>, and a flagged payload with neither text nor
  image.\<close>

definition flagged_reply :: webhook_data where
  "flagged_reply =
     \<lparr>conversationId = Some ''c1'', botText = Some ''Hi there'', botImage = None,
      isBot = Is_Bot\<rparr>"

definition unflagged_reply :: "conv_id \<Rightarrow> webhook_data" where
  "unflagged_reply c =
     \<lparr>conversationId = Some c, botText = Some ''Hello!'',
      botImage = None, isBot = No_Flag\<rparr>"

definition empty_payload :: webhook_data where
  "empty_payload =
     \<lparr>conversationId = Some ''c1'', botText = None, botImage = None, isBot = Is_Bot\<rparr>"

definition vendor_reply :: "string \<Rightarrow> int \<Rightarrow> vendor_message" where
  "vendor_reply i created =
     \<lparr>vm_id = i, vm_userId = ''bot'', vm_conversationId = ''c1'', vm_text = Some ''Hi there'',
      vm_image = None, vm_createdAt = created\<rparr>"

text \<open>The end-to-end scenario of the specification, followed by a late fragment: the user
  message is tracked, one fragment arrives, its timer (handle 2) fires after the quiet period
  and a poll follows; then a second fragment arrives and a second poll follows.\<close>

definition end_to_end :: "(int \<times> event) list" where
  "end_to_end =
     [(0, Track (Some ''c1'') (Some ''hello'')), (1000, Webhook ''abc'' flagged_reply),
      (7000, Fire 2), (7100, Poll ''c1''), (8000, Webhook ''def'' flagged_reply),
      (8100, Poll ''c1'')]"

text \<open>The states these and the other scenarios below pass through, written out. Each is
  shown further down to be the result of one step from the state before it.\<close>

definition tracked :: state where
  "tracked =
     \<lparr>botMessages = [], globalMessages = Map.empty,
        userMessages =
          [(''c1'',
            \<lparr>um_text = ''hello'', um_timestamp = 0, um_trackedAt = 0\<rparr>)],
        conversationTimeouts = Map.empty, objects = \<lambda>_. blank_object,
        arrays = \<lambda>_. [], msgs = \<lambda>_. blank_message, timers = Map.empty,
        fresh = 0\<rparr>"

definition collecting_state :: state where
  "collecting_state =
     \<lparr>botMessages = [], globalMessages = [''c1'' \<mapsto> 0],
        userMessages =
          [(''c1'',
            \<lparr>um_text = ''hello'', um_timestamp = 0, um_trackedAt = 0\<rparr>)],
        conversationTimeouts = [''c1'' \<mapsto> 2],
        objects = \<lambda>_. blank_object, arrays = (\<lambda>_. [])(0 := [1]),
        msgs =
          (\<lambda>_. blank_message)
          (1 :=
             \<lparr>msg_id = Bot_Msg 1000 ''abc'', msg_text = Some ''Hi there'',
                msg_image = None, msg_timestamp = 1000,
                msg_receivedAt = 1000, msg_delivered = False\<rparr>),
        timers =
          [2 \<mapsto> \<lparr>due = 7000, callback = Finalize_Timeout ''c1''\<rparr>],
        fresh = 3\<rparr>"

definition finalized_state :: state where
  "finalized_state =
     \<lparr>botMessages = [(''c1'', 4)], globalMessages = [''c1'' \<mapsto> 0],
        userMessages = [], conversationTimeouts = Map.empty,
        objects =
          (\<lambda>_. blank_object)
          (4 := \<lparr>messages = 0, lastDelivered = 0,
                   allMessagesReceived = True, deliveryTimeoutId = None\<rparr>),
        arrays = (\<lambda>_. [])(0 := [1], 3 := []),
        msgs =
          (\<lambda>_. blank_message)
          (1 :=
             \<lparr>msg_id = Bot_Msg 1000 ''abc'', msg_text = Some ''Hi there'',
                msg_image = None, msg_timestamp = 1000,
                msg_receivedAt = 1000, msg_delivered = False\<rparr>),
        timers = Map.empty, fresh = 5\<rparr>"

definition delivered_state :: state where
  "delivered_state =
     \<lparr>botMessages = [(''c1'', 4)], globalMessages = [''c1'' \<mapsto> 0],
        userMessages = [], conversationTimeouts = Map.empty,
        objects =
          (\<lambda>_. blank_object)
          (4 := \<lparr>messages = 0, lastDelivered = 0,
                   allMessagesReceived = True, deliveryTimeoutId = None\<rparr>),
        arrays = (\<lambda>_. [])(0 := [1], 3 := []),
        msgs =
          (\<lambda>_. blank_message)
          (1 :=
             \<lparr>msg_id = Bot_Msg 1000 ''abc'', msg_text = Some ''Hi there'',
                msg_image = None, msg_timestamp = 1000,
                msg_receivedAt = 1000, msg_delivered = True\<rparr>),
        timers = Map.empty, fresh = 5\<rparr>"

definition late_fragment :: state where
  "late_fragment =
     \<lparr>botMessages = [(''c1'', 4)], globalMessages = [''c1'' \<mapsto> 0],
        userMessages = [], conversationTimeouts = [''c1'' \<mapsto> 6],
        objects =
          (\<lambda>_. blank_object)
          (4 := \<lparr>messages = 0, lastDelivered = 0,
                   allMessagesReceived = True, deliveryTimeoutId = None\<rparr>),
        arrays = (\<lambda>_. [])(3 := [], 0 := [1, 5]),
        msgs =
          (\<lambda>_. blank_message)
          (1 :=
             \<lparr>msg_id = Bot_Msg 1000 ''abc'', msg_text = Some ''Hi there'',
                msg_image = None, msg_timestamp = 1000,
                msg_receivedAt = 1000, msg_delivered = True\<rparr>,
             5 := \<lparr>msg_id = Bot_Msg 8000 ''def'',
                     msg_text = Some ''Hi there'', msg_image = None,
                     msg_timestamp = 8000, msg_receivedAt = 8000,
                     msg_delivered = False\<rparr>),
        timers = [6 \<mapsto> \<lparr>due = 14000, callback = Finalize_Timeout ''c1''\<rparr>],
        fresh = 7\<rparr>"

definition delivered_again :: state where
  "delivered_again =
     \<lparr>botMessages = [(''c1'', 4)], globalMessages = [''c1'' \<mapsto> 0],
        userMessages = [], conversationTimeouts = [''c1'' \<mapsto> 6],
        objects =
          (\<lambda>_. blank_object)
          (4 := \<lparr>messages = 0, lastDelivered = 0,
                   allMessagesReceived = True, deliveryTimeoutId = None\<rparr>),
        arrays = (\<lambda>_. [])(3 := [], 0 := [1, 5]),
        msgs =
          (\<lambda>_. blank_message)
          (1 :=
             \<lparr>msg_id = Bot_Msg 1000 ''abc'', msg_text = Some ''Hi there'',
                msg_image = None, msg_timestamp = 1000,
                msg_receivedAt = 1000, msg_delivered = True\<rparr>,
             5 := \<lparr>msg_id = Bot_Msg 8000 ''def'',
                     msg_text = Some ''Hi there'', msg_image = None,
                     msg_timestamp = 8000, msg_receivedAt = 8000,
                     msg_delivered = True\<rparr>),
        timers = [6 \<mapsto> \<lparr>due = 14000, callback = Finalize_Timeout ''c1''\<rparr>],
        fresh = 7\<rparr>"

definition tracked_again :: state where
  "tracked_again =
     \<lparr>botMessages = [], globalMessages = Map.empty,
        userMessages =
          [(''c1'',
            \<lparr>um_text = ''next question'', um_timestamp = 2000,
               um_trackedAt = 2000\<rparr>)],
        conversationTimeouts = [''c1'' \<mapsto> 2], objects = \<lambda>_. blank_object,
        arrays = (\<lambda>_. [])(0 := [1]),
        msgs =
          (\<lambda>_. blank_message)
          (1 :=
             \<lparr>msg_id = Bot_Msg 1000 ''abc'', msg_text = Some ''Hi there'',
                msg_image = None, msg_timestamp = 1000,
                msg_receivedAt = 1000, msg_delivered = False\<rparr>),
        timers = [2 \<mapsto> \<lparr>due = 7000, callback = Finalize_Timeout ''c1''\<rparr>],
        fresh = 3\<rparr>"

definition orphan_fired :: state where
  "orphan_fired =
     \<lparr>botMessages = [(''c1'', 5)], globalMessages = Map.empty,
        userMessages = [], conversationTimeouts = Map.empty,
        objects =
          (\<lambda>_. blank_object)
          (5 := \<lparr>messages = 3, lastDelivered = 0,
                   allMessagesReceived = True, deliveryTimeoutId = None\<rparr>),
        arrays = (\<lambda>_. [])(0 := [1], 3 := [], 4 := []),
        msgs =
          (\<lambda>_. blank_message)
          (1 :=
             \<lparr>msg_id = Bot_Msg 1000 ''abc'', msg_text = Some ''Hi there'',
                msg_image = None, msg_timestamp = 1000,
                msg_receivedAt = 1000, msg_delivered = False\<rparr>),
        timers = Map.empty, fresh = 6\<rparr>"

definition mixed :: state where
  "mixed =
     \<lparr>botMessages = [(''c1'', 4)], globalMessages = [''c1'' \<mapsto> 0],
        userMessages = [], conversationTimeouts = [''c1'' \<mapsto> 2],
        objects =
          (\<lambda>_. blank_object)
          (4 := \<lparr>messages = 3, lastDelivered = 0,
                   allMessagesReceived = False,
                   deliveryTimeoutId = Some 6\<rparr>),
        arrays = (\<lambda>_. [])(0 := [1], 3 := [5]),
        msgs =
          (\<lambda>_. blank_message)
          (1 :=
             \<lparr>msg_id = Bot_Msg 1000 ''abc'', msg_text = Some ''Hi there'',
                msg_image = None, msg_timestamp = 1000,
                msg_receivedAt = 1000, msg_delivered = False\<rparr>,
             5 := \<lparr>msg_id = Bot_Fallback 3000, msg_text = Some ''Hello!'',
                     msg_image = None, msg_timestamp = 3000,
                     msg_receivedAt = 3000, msg_delivered = False\<rparr>),
        timers =
          [2 \<mapsto> \<lparr>due = 7000, callback = Finalize_Timeout ''c1''\<rparr>,
           6 \<mapsto> \<lparr>due = 9000, callback = Fallback_Timeout 4\<rparr>],
        fresh = 7\<rparr>"

definition debounced :: state where
  "debounced =
     \<lparr>botMessages = [], globalMessages = [''c1'' \<mapsto> 0],
        userMessages =
          [(''c1'',
            \<lparr>um_text = ''hello'', um_timestamp = 0, um_trackedAt = 0\<rparr>)],
        conversationTimeouts = [''c1'' \<mapsto> 4], objects = \<lambda>_. blank_object,
        arrays = (\<lambda>_. [])(0 := [1, 3]),
        msgs =
          (\<lambda>_. blank_message)
          (1 :=
             \<lparr>msg_id = Bot_Msg 1000 ''abc'', msg_text = Some ''Hi there'',
                msg_image = None, msg_timestamp = 1000,
                msg_receivedAt = 1000, msg_delivered = False\<rparr>,
             3 := \<lparr>msg_id = Bot_Msg 3000 ''def'',
                     msg_text = Some ''Hi there'', msg_image = None,
                     msg_timestamp = 3000, msg_receivedAt = 3000,
                     msg_delivered = False\<rparr>),
        timers = [4 \<mapsto> \<lparr>due = 9000, callback = Finalize_Timeout ''c1''\<rparr>],
        fresh = 5\<rparr>"

definition fallback_once :: state where
  "fallback_once =
     \<lparr>botMessages = [(''c1'', 1)], globalMessages = Map.empty,
        userMessages = [], conversationTimeouts = Map.empty,
        objects =
          (\<lambda>_. blank_object)
          (1 :=
             \<lparr>messages = 0, lastDelivered = 0, allMessagesReceived = False,
                deliveryTimeoutId = Some 3\<rparr>),
        arrays = (\<lambda>_. [])(0 := [2]),
        msgs =
          (\<lambda>_. blank_message)
          (2 :=
             \<lparr>msg_id = Bot_Fallback 1000, msg_text = Some ''Hello!'',
                msg_image = None, msg_timestamp = 1000,
                msg_receivedAt = 1000, msg_delivered = False\<rparr>),
        timers =
          [3 \<mapsto>
           \<lparr>due = 7000, callback = Fallback_Timeout 1\<rparr>],
        fresh = 4\<rparr>"

definition fallback_twice :: state where
  "fallback_twice =
     \<lparr>botMessages = [(''c1'', 1)], globalMessages = Map.empty,
        userMessages = [], conversationTimeouts = Map.empty,
        objects =
          (\<lambda>_. blank_object)
          (1 :=
             \<lparr>messages = 0, lastDelivered = 0, allMessagesReceived = False,
                deliveryTimeoutId = Some 5\<rparr>),
        arrays = (\<lambda>_. [])(0 := [2, 4]),
        msgs =
          (\<lambda>_. blank_message)
          (2 := \<lparr>msg_id = Bot_Fallback 1000, msg_text = Some ''Hello!'',
                   msg_image = None, msg_timestamp = 1000,
                   msg_receivedAt = 1000, msg_delivered = False\<rparr>,
             4 := \<lparr>msg_id = Bot_Fallback 1000, msg_text = Some ''Hello!'',
                     msg_image = None, msg_timestamp = 1000,
                     msg_receivedAt = 1000, msg_delivered = False\<rparr>),
        timers = [5 \<mapsto> \<lparr>due = 7000, callback = Fallback_Timeout 1\<rparr>],
        fresh = 6\<rparr>"

definition monitored :: state where
  "monitored =
     \<lparr>botMessages = [], globalMessages = [''c1'' \<mapsto> 3],
        userMessages = [],
        conversationTimeouts = [''c1'' \<mapsto> 4],
        objects = \<lambda>_. blank_object,
        arrays = (\<lambda>_. [])(3 := [0, 1, 2]),
        msgs =
          (\<lambda>_. blank_message)
          (0 := \<lparr>msg_id = Vendor_Id ''a'', msg_text = Some ''Hi there'',
                   msg_image = None, msg_timestamp = 300,
                   msg_receivedAt = 400, msg_delivered = False\<rparr>,
             1 :=
               \<lparr>msg_id = Vendor_Id ''b'', msg_text = Some ''Hi there'',
                  msg_image = None, msg_timestamp = 100,
                  msg_receivedAt = 400, msg_delivered = False\<rparr>,
             2 :=
               \<lparr>msg_id = Vendor_Id ''c'', msg_text = Some ''Hi there'',
                  msg_image = None, msg_timestamp = 200,
                  msg_receivedAt = 400, msg_delivered = False\<rparr>),
        timers =
          [4 \<mapsto>
           \<lparr>due = 5400, callback = Finalize_Messages ''c1''\<rparr>],
        fresh = 5\<rparr>"

definition monitored_final :: state where
  "monitored_final =
     \<lparr>botMessages = [(''c1'', 6)], globalMessages = [''c1'' \<mapsto> 3],
        userMessages = [], conversationTimeouts = Map.empty,
        objects =
          (\<lambda>_. blank_object)
          (6 := \<lparr>messages = 3, lastDelivered = 0,
                   allMessagesReceived = True, deliveryTimeoutId = None\<rparr>),
        arrays = (\<lambda>_. [])(3 := [1, 2, 0], 5 := []),
        msgs =
          (\<lambda>_. blank_message)
          (0 := \<lparr>msg_id = Vendor_Id ''a'', msg_text = Some ''Hi there'',
                   msg_image = None, msg_timestamp = 300,
                   msg_receivedAt = 400, msg_delivered = False\<rparr>,
             1 :=
               \<lparr>msg_id = Vendor_Id ''b'', msg_text = Some ''Hi there'',
                  msg_image = None, msg_timestamp = 100,
                  msg_receivedAt = 400, msg_delivered = False\<rparr>,
             2 := \<lparr>msg_id = Vendor_Id ''c'', msg_text = Some ''Hi there'',
                     msg_image = None, msg_timestamp = 200,
                     msg_receivedAt = 400, msg_delivered = False\<rparr>),
        timers = Map.empty, fresh = 7\<rparr>"

definition two_buffers :: state where
  "two_buffers =
     \<lparr>botMessages = [(''c1'', 4), (''c2'', 6)],
        globalMessages = [''c1'' \<mapsto> 0], userMessages = [],
        conversationTimeouts = Map.empty,
        objects =
          (\<lambda>_. blank_object)
          (4 := \<lparr>messages = 0, lastDelivered = 0,
                   allMessagesReceived = True, deliveryTimeoutId = None\<rparr>,
             6 := \<lparr>messages = 5, lastDelivered = 0,
                     allMessagesReceived = False,
                     deliveryTimeoutId = Some 8\<rparr>),
        arrays = (\<lambda>_. [])(0 := [1], 3 := [], 5 := [7]),
        msgs =
          (\<lambda>_. blank_message)
          (1 :=
             \<lparr>msg_id = Bot_Msg 1000 ''abc'', msg_text = Some ''Hi there'',
                msg_image = None, msg_timestamp = 1000,
                msg_receivedAt = 1000, msg_delivered = False\<rparr>,
             7 := \<lparr>msg_id = Bot_Fallback 200000, msg_text = Some ''Hello!'',
                     msg_image = None, msg_timestamp = 200000,
                     msg_receivedAt = 200000, msg_delivered = False\<rparr>),
        timers = [8 \<mapsto> \<lparr>due = 206000, callback = Fallback_Timeout 6\<rparr>],
        fresh = 9\<rparr>"

definition old_state :: state where
  "old_state =
     \<lparr>botMessages = [(''c1'', 4), (''c2'', 6)],
        globalMessages = [''c1'' \<mapsto> 0],
        userMessages =
          [(''c3'',
            \<lparr>um_text = ''hi'', um_timestamp = 200100,
               um_trackedAt = 200100\<rparr>)],
        conversationTimeouts = Map.empty,
        objects =
          (\<lambda>_. blank_object)
          (4 := \<lparr>messages = 0, lastDelivered = 0,
                   allMessagesReceived = True, deliveryTimeoutId = None\<rparr>,
             6 := \<lparr>messages = 5, lastDelivered = 0,
                     allMessagesReceived = False,
                     deliveryTimeoutId = Some 8\<rparr>),
        arrays = (\<lambda>_. [])(0 := [1], 3 := [], 5 := [7]),
        msgs =
          (\<lambda>_. blank_message)
          (1 :=
             \<lparr>msg_id = Bot_Msg 1000 ''abc'', msg_text = Some ''Hi there'',
                msg_image = None, msg_timestamp = 1000,
                msg_receivedAt = 1000, msg_delivered = False\<rparr>,
             7 := \<lparr>msg_id = Bot_Fallback 200000, msg_text = Some ''Hello!'',
                     msg_image = None, msg_timestamp = 200000,
                     msg_receivedAt = 200000, msg_delivered = False\<rparr>),
        timers = [8 \<mapsto> \<lparr>due = 206000, callback = Fallback_Timeout 6\<rparr>],
        fresh = 9\<rparr>"

definition swept :: state where
  "swept =
     \<lparr>botMessages = [(''c2'', 6)], globalMessages = [''c1'' \<mapsto> 0],
        userMessages = [], conversationTimeouts = Map.empty,
        objects =
          (\<lambda>_. blank_object)
          (6 := \<lparr>messages = 5, lastDelivered = 0,
                   allMessagesReceived = False, deliveryTimeoutId = Some 8\<rparr>,
             4 := \<lparr>messages = 9, lastDelivered = 0,
                     allMessagesReceived = True, deliveryTimeoutId = None\<rparr>),
        arrays = (\<lambda>_. [])(0 := [1], 3 := [], 5 := [7], 9 := []),
        msgs =
          (\<lambda>_. blank_message)
          (1 :=
             \<lparr>msg_id = Bot_Msg 1000 ''abc'', msg_text = Some ''Hi there'',
                msg_image = None, msg_timestamp = 1000,
                msg_receivedAt = 1000, msg_delivered = False\<rparr>,
             7 := \<lparr>msg_id = Bot_Fallback 200000, msg_text = Some ''Hello!'',
                     msg_image = None, msg_timestamp = 200000,
                     msg_receivedAt = 200000, msg_delivered = False\<rparr>),
        timers = [8 \<mapsto> \<lparr>due = 206000, callback = Fallback_Timeout 6\<rparr>],
        fresh = 10\<rparr>"

section \<open>Properties\<close>

subsection \<open>Every reachable state is well formed\<close>

lemma mark_delivered_eq:
  "mark_delivered ms s =
     s\<lparr>msgs := (\<lambda>m. if m \<in> set ms then (msgs s m)\<lparr>msg_delivered := True\<rparr> else msgs s m)\<rparr>"
  unfolding mark_delivered_def
proof (induction ms arbitrary: s)
  case Nil
  then show ?case by simp
next
  case (Cons a ms)
  have "(\<lambda>m. if m \<in> set ms then (msgs (set_delivered a s) m)\<lparr>msg_delivered := True\<rparr>
              else msgs (set_delivered a s) m) =
        (\<lambda>m. if m \<in> set (a # ms) then (msgs s m)\<lparr>msg_delivered := True\<rparr> else msgs s m)"
    by (auto simp: fun_eq_iff set_delivered_def)
  then show ?case by (simp add: Cons.IH) (simp add: set_delivered_def)
qed

lemma update_absent: "map_of al k = None \<Longrightarrow> AList.update k v al = al @ [(k, v)]"
  by (induction al) (auto split: if_splits)

lemma distinct_snd_delete:
  "distinct (map snd al) \<Longrightarrow> distinct (map snd (AList.delete k al))"
  by (simp add: AList.delete_eq distinct_map_filter)

lemma set_delete_subset: "set (AList.delete k al) \<subseteq> set al"
  by (auto simp: AList.delete_eq)

lemma wf_clearTimeout: "wf s \<Longrightarrow> wf (clearTimeout h s)"
  by (auto simp: wf_def clearTimeout_def split: if_splits)

lemma wf_cancel_delivery: "wf s \<Longrightarrow> wf (cancel_delivery d s)"
  by (simp add: cancel_delivery_def wf_clearTimeout split: option.splits)

lemma botMessages_cancel_delivery [simp]: "botMessages (cancel_delivery d s) = botMessages s"
  by (simp add: cancel_delivery_def clearTimeout_def split: option.splits)

lemma wf_delete_entry: "wf s \<Longrightarrow> wf (delete_entry key d s)"
  using set_delete_subset[of key "botMessages s"] wf_cancel_delivery[of s d]
  by (auto simp: delete_entry_def Let_def wf_def distinct_delete distinct_snd_delete)

lemma wf_cleanup_previous: "wf s \<Longrightarrow> wf (cleanup_previous c s)"
proof -
  assume "wf s"
  then have "wf (case map_of (botMessages s) c of None \<Rightarrow> s | Some d \<Rightarrow> delete_entry c d s)"
    by (simp add: wf_delete_entry split: option.splits)
  then show ?thesis by (auto simp: cleanup_previous_def Let_def wf_def)
qed

lemma wf_track: "wf s \<Longrightarrow> wf (snd (track_user_message now cid utext s))"
  using wf_cleanup_previous[of s "the cid"]
  by (auto simp: track_user_message_def Let_def wf_def)

lemma wf_mark: "wf s \<Longrightarrow> wf (mark_delivered r s)"
  by (auto simp: wf_def mark_delivered_eq)

lemma wf_poll: "wf s \<Longrightarrow> wf (snd (bot_response c s))"
  by (auto simp: bot_response_def Let_def wf_mark split: option.splits)

lemma get_or_create_post:
  assumes "wf s" "get_or_create c s = (d, s1)"
  shows "wf s1 \<and> map_of (botMessages s1) c = Some d \<and> fresh s \<le> fresh s1 \<and>
         globalMessages s1 = globalMessages s \<and> msgs s1 = msgs s \<and> timers s1 = timers s \<and>
         userMessages s1 = userMessages s \<and> conversationTimeouts s1 = conversationTimeouts s \<and>
         (\<forall>a < fresh s. arrays s1 a = arrays s a)"
proof (cases "map_of (botMessages s) c")
  case None
  then have "c \<notin> fst ` set (botMessages s)" by (simp add: map_of_eq_None_iff)
  with assms None show ?thesis
    by (auto simp: get_or_create_def new_array_def new_object_def wf_def update_absent
        map_add_def less_Suc_eq split: if_splits dest: Suc_lessD) force
next
  case (Some d')
  with assms show ?thesis by (auto simp: get_or_create_def)
qed


lemma wf_botD:
  "wf s \<Longrightarrow> (k, d) \<in> set (botMessages s) \<Longrightarrow> d < fresh s \<and> messages (objects s d) < fresh s"
  by (auto simp: wf_def)

lemma wf_map_ofD:
  "wf s \<Longrightarrow> map_of (botMessages s) k = Some d \<Longrightarrow> d < fresh s \<and> messages (objects s d) < fresh s"
  by (auto dest: map_of_SomeD wf_botD)

lemma wf_globalD: "wf s \<Longrightarrow> globalMessages s c = Some a \<Longrightarrow> a < fresh s"
  by (auto simp: wf_def)

lemma wf_arrayD: "wf s \<Longrightarrow> m \<in> set (arrays s a) \<Longrightarrow> m < fresh s"
  by (auto simp: wf_def)

lemma wf_sort_in_place: "wf s \<Longrightarrow> wf (sort_in_place a s)"
  by (auto simp: wf_def sort_in_place_def by_timestamp_def split: if_splits)

lemma wf_push: "wf s \<Longrightarrow> \<forall>m\<in>set ms. m < fresh s \<Longrightarrow> wf (push a ms s)"
  by (auto simp: wf_def push_def split: if_splits)

lemma wf_set_ready: "wf s \<Longrightarrow> a < fresh s \<Longrightarrow> wf (set_ready d a s)"
  by (auto simp: wf_def set_ready_def split: if_splits)

lemma wf_clean_up_tracking: "wf s \<Longrightarrow> wf (clean_up_tracking c s)"
  by (auto simp: wf_def clean_up_tracking_def)

lemma wf_fallback_timeout: "wf s \<Longrightarrow> wf (fallback_timeout d s)"
  by (auto simp: wf_def fallback_timeout_def split: if_splits)

lemma wf_new_array:
  "wf s \<Longrightarrow> \<forall>m\<in>set xs. m < fresh s \<Longrightarrow> new_array xs s = (a, s') \<Longrightarrow> wf s' \<and> a < fresh s'"
  by (auto simp: wf_def new_array_def less_Suc_eq split: if_splits dest: Suc_lessD)

lemma wf_new_message:
  "wf s \<Longrightarrow> new_message m s = (r, s') \<Longrightarrow> wf s' \<and> r < fresh s'"
  by (auto simp: wf_def new_message_def less_Suc_eq split: if_splits dest: Suc_lessD)

lemma wf_setTimeout:
  "wf s \<Longrightarrow> setTimeout cb at s = (h, s') \<Longrightarrow> wf s'"
  by (auto simp: wf_def setTimeout_def less_Suc_eq split: if_splits dest: Suc_lessD)

lemma wf_global_array:
  "wf s \<Longrightarrow> global_array c s = (a, s') \<Longrightarrow> wf s' \<and> a < fresh s'"
  by (auto simp: wf_def global_array_def new_array_def less_Suc_eq split: if_splits option.splits dest: Suc_lessD)

lemma wf_rearm: "wf s \<Longrightarrow> wf (rearm c cb at s)"
  by (auto simp: rearm_def Let_def split: option.splits prod.splits
      intro!: wf_clearTimeout dest!: wf_setTimeout[rotated] simp: wf_def)


lemma fresh_sort_in_place [simp]: "fresh (sort_in_place a s) = fresh s"
  by (simp add: sort_in_place_def)

lemma globalMessages_sort_in_place [simp]: "globalMessages (sort_in_place a s) = globalMessages s"
  by (simp add: sort_in_place_def)

lemma wf_finalizeMessages: "wf s \<Longrightarrow> wf (finalizeMessages c s)"
proof -
  assume wf: "wf s"
  show ?thesis
  proof (cases "globalMessages s c")
    case None
    with wf show ?thesis by (simp add: finalizeMessages_def wf_clean_up_tracking)
  next
    case (Some a)
    obtain d s1 where g: "get_or_create c (sort_in_place a s) = (d, s1)" by force
    from wf have "wf (sort_in_place a s)" by (rule wf_sort_in_place)
    from get_or_create_post[OF this g] have "wf s1" "fresh s \<le> fresh s1" by simp_all
    moreover from wf Some have "a < fresh s" by (rule wf_globalD)
    ultimately have "wf (set_ready d a s1)" by (intro wf_set_ready) simp_all
    with wf Some g show ?thesis by (simp add: finalizeMessages_def wf_clean_up_tracking)
  qed
qed

lemma wf_finalize_timeout: "wf s \<Longrightarrow> wf (finalize_timeout c s)"
proof -
  assume wf: "wf s"
  obtain a s0 where a: "(case globalMessages s c of Some a \<Rightarrow> (a, s) | None \<Rightarrow> new_array [] s) = (a, s0)"
    by force
  from wf a have s0: "wf s0 \<and> a < fresh s0"
    by (cases "globalMessages s c") (auto dest: wf_globalD wf_new_array[rotated 2])
  obtain d s1 where g: "get_or_create c (sort_in_place a s0) = (d, s1)" by force
  from s0 have "wf (sort_in_place a s0)" by (simp add: wf_sort_in_place)
  from get_or_create_post[OF this g] have "wf s1" "fresh s0 \<le> fresh s1" by simp_all
  with s0 have "wf (set_ready d a s1)" by (intro wf_set_ready) simp_all
  with a g show ?thesis by (simp add: finalize_timeout_def wf_clean_up_tracking)
qed

lemma wf_fire: "wf s \<Longrightarrow> wf (fire now h s)"
proof -
  assume wf: "wf s"
  have "wf (run_callback cb (clearTimeout h s))" for cb
    using wf by (cases cb) (simp_all add: wf_clearTimeout wf_finalizeMessages wf_finalize_timeout wf_fallback_timeout)
  with wf show ?thesis by (simp add: fire_def split: option.splits)
qed

lemma new_messages_post:
  "wf s \<Longrightarrow> new_messages ms s = (rs, s') \<Longrightarrow>
   wf s' \<and> (\<forall>r\<in>set rs. r < fresh s') \<and> fresh s \<le> fresh s' \<and> length rs = length ms"
proof (induction ms arbitrary: s rs s')
  case Nil
  then show ?case by simp
next
  case (Cons m ms)
  obtain r s1 where r: "new_message m s = (r, s1)" by force
  obtain rs' s2 where rs': "new_messages ms s1 = (rs', s2)" by force
  from Cons.prems r rs' have eq: "rs = r # rs'" "s' = s2" by simp_all
  from wf_new_message[OF Cons.prems(1) r] have s1: "wf s1" "r < fresh s1" by simp_all
  from r have "fresh s \<le> fresh s1" by (auto simp: new_message_def)
  with Cons.IH[OF s1(1) rs'] s1(2) eq show ?case by auto
qed

lemma wf_monitor_tick: "wf s \<Longrightarrow> wf (monitor_tick now c fetched s)"
proof -
  assume wf: "wf s"
  obtain rs s1 where n: "new_messages (map (to_message now) (filter (is_new_bot_message s c) fetched)) s = (rs, s1)"
    by force
  obtain a s2 where g: "global_array c s1 = (a, s2)" by force
  from new_messages_post[OF wf n] have s1: "wf s1" "\<forall>r\<in>set rs. r < fresh s1" by simp_all
  from wf_global_array[OF s1(1) g] have s2: "wf s2" by simp
  from g have "fresh s1 \<le> fresh s2" by (auto simp: global_array_def new_array_def split: option.splits)
  with s1(2) have "\<forall>r\<in>set rs. r < fresh s2" by auto
  with s2 have "wf (push a rs s2)" by (rule wf_push)
  then have "wf (rearm c (Finalize_Messages c) (now + 5000) (push a rs s2))" by (rule wf_rearm)
  with wf n g show ?thesis by (simp add: monitor_tick_def)
qed

lemma wf_store_bot_message: "wf s \<Longrightarrow> wf (store_bot_message now rnd p s)"
proof -
  assume wf: "wf s"
  obtain a s1 where g: "global_array (the (conversationId p)) s = (a, s1)" by force
  obtain m s2 where n: "new_message
                     \<lparr>msg_id = Bot_Msg now rnd, msg_text = or_null (botText p),
                      msg_image = or_null (botImage p), msg_timestamp = now,
                      msg_receivedAt = now, msg_delivered = False\<rparr> s1 = (m, s2)" by force
  from wf_global_array[OF wf g] have "wf s1" by simp
  from wf_new_message[OF this n] have "wf s2" "m < fresh s2" by simp_all
  then have "wf (push a [m] s2)" by (intro wf_push) simp_all
  then have "wf (rearm (the (conversationId p)) (Finalize_Timeout (the (conversationId p))) (now + 6000) (push a [m] s2))"
    by (rule wf_rearm)
  with wf g n show ?thesis by (simp add: store_bot_message_def Let_def)
qed


lemma wf_arm_delivery: "wf s \<Longrightarrow> wf (arm_delivery d at s)"
proof -
  assume "wf s"
  then have "wf (cancel_delivery d s)" by (rule wf_cancel_delivery)
  moreover obtain h s1 where t: "setTimeout (Fallback_Timeout d) at (cancel_delivery d s) = (h, s1)"
    by force
  ultimately have "wf s1" by (rule wf_setTimeout)
  then have "wf (s1\<lparr>objects := (objects s1)(d := (objects s1 d)\<lparr>deliveryTimeoutId := Some h\<rparr>)\<rparr>)"
    by (auto simp: wf_def split: if_splits)
  with t show ?thesis by (simp add: arm_delivery_def)
qed

lemma wf_store_fallback: "wf s \<Longrightarrow> wf (store_fallback now p s)"
proof -
  assume wf: "wf s"
  define c where "c = the (conversationId p)"
  obtain d s1 where g: "get_or_create c s = (d, s1)" by force
  obtain m s2 where n: "new_message
                     \<lparr>msg_id = Bot_Fallback now, msg_text = or_null (botText p),
                      msg_image = or_null (botImage p), msg_timestamp = now,
                      msg_receivedAt = now, msg_delivered = False\<rparr> s1 = (m, s2)" by force
  define s3 where "s3 = arm_delivery d (now + 6000)
                         (sort_in_place (messages (objects s2 d)) (push (messages (objects s2 d)) [m] s2))"
  from get_or_create_post[OF wf g] have "wf s1" by simp
  from wf_new_message[OF this n] have "wf s2" "m < fresh s2" by simp_all
  then have "wf s3" unfolding s3_def by (intro wf_arm_delivery wf_sort_in_place wf_push) simp_all
  then have "wf (s3\<lparr>userMessages := AList.delete c (userMessages s3)\<rparr>)"
    by (auto simp: wf_def)
  with wf g n show ?thesis
    by (simp add: store_fallback_def Let_def c_def s3_def)
qed

lemma wf_prune: "wf s \<Longrightarrow> wf (prune cutoff d s)"
proof -
  assume wf: "wf s"
  have "\<forall>m\<in>set (recent cutoff s (arrays s (messages (objects s d)))). m < fresh s"
    using wf by (auto simp: recent_def dest: wf_arrayD)
  with wf show ?thesis
    by (auto simp: prune_def Let_def wf_def new_array_def less_Suc_eq split: if_splits dest: Suc_lessD)
qed

lemma wf_cleanup_entry: "wf s \<Longrightarrow> wf (cleanup_entry cutoff e s)"
  by (cases e) (simp add: cleanup_entry_def Let_def wf_prune wf_delete_entry)

lemma wf_fold_cleanup_entry: "wf s \<Longrightarrow> wf (fold (cleanup_entry cutoff) es s)"
  by (induction es arbitrary: s) (simp_all add: wf_cleanup_entry)

lemma wf_cleanup: "wf s \<Longrightarrow> wf (cleanup now s)"
  using wf_fold_cleanup_entry[of s "now - retention" "botMessages s"]
  by (auto simp: cleanup_def Let_def wf_def)

lemma wf_botpress_webhook: "wf s \<Longrightarrow> wf (botpress_webhook now rnd p s)"
  by (cases "isBot p") (simp_all add: botpress_webhook_def wf_cleanup wf_store_bot_message wf_store_fallback)

lemma wf_step: "wf s \<Longrightarrow> wf (step e s)"
  by (cases e; cases "snd e")
     (auto simp: wf_track wf_poll wf_botpress_webhook wf_monitor_tick wf_fire)

lemma wf_initial: "wf initial_state"
  by (simp add: wf_def initial_state_def)

lemma wf_fold_step: "wf s \<Longrightarrow> wf (fold step evs s)"
  by (induction evs arbitrary: s) (simp_all add: wf_step)

lemma wf_run: "wf (run evs initial_state)"
  by (simp add: run_def wf_fold_step wf_initial)


lemma grows_refl [simp]: "grows s s"
  by (simp add: grows_def)

lemma grows_trans: "grows s s' \<Longrightarrow> grows s' s'' \<Longrightarrow> grows s s''"
  by (auto simp: grows_def)

lemma grows_same: "fresh s' = fresh s \<Longrightarrow> msgs s' = msgs s \<Longrightarrow> grows s s'"
  by (simp add: grows_def)

lemma grows_new_array: "grows s (snd (new_array xs s))"
  by (simp add: grows_def new_array_def)

lemma grows_new_message: "grows s (snd (new_message m s))"
  by (simp add: grows_def new_message_def)

lemma grows_new_object: "grows s (snd (new_object v s))"
  by (simp add: grows_def new_object_def)

lemma grows_setTimeout: "grows s (snd (setTimeout cb at s))"
  by (simp add: grows_def setTimeout_def)

lemma grows_clearTimeout: "grows s (clearTimeout h s)"
  by (simp add: grows_def clearTimeout_def)

lemma grows_cancel_delivery: "grows s (cancel_delivery d s)"
  by (simp add: cancel_delivery_def grows_clearTimeout split: option.splits)

lemma grows_delete_entry: "grows s (delete_entry key d s)"
  using grows_cancel_delivery[of s d] by (simp add: delete_entry_def Let_def grows_def)

lemma grows_cleanup_previous: "grows s (cleanup_previous c s)"
proof -
  have "grows s (case map_of (botMessages s) c of None \<Rightarrow> s | Some d \<Rightarrow> delete_entry c d s)"
    by (simp add: grows_delete_entry split: option.splits)
  then show ?thesis by (simp add: cleanup_previous_def Let_def grows_def)
qed

lemma grows_track: "grows s (snd (track_user_message now cid utext s))"
  using grows_cleanup_previous[of s "the cid"]
  by (simp add: track_user_message_def Let_def grows_def)

lemma grows_mark: "grows s (mark_delivered r s)"
  by (simp add: grows_def mark_delivered_eq)

lemma grows_poll: "grows s (snd (bot_response c s))"
  by (simp add: bot_response_def Let_def grows_mark split: option.splits)

lemma grows_get_or_create: "grows s (snd (get_or_create c s))"
  by (auto simp: get_or_create_def grows_def new_array_def new_object_def split: option.splits)

lemma grows_global_array: "grows s (snd (global_array c s))"
  by (auto simp: global_array_def grows_def new_array_def split: option.splits)

lemma grows_sort_in_place: "grows s (sort_in_place a s)"
  by (simp add: grows_def sort_in_place_def)

lemma grows_push: "grows s (push a ms s)"
  by (simp add: grows_def push_def)

lemma grows_set_ready: "grows s (set_ready d a s)"
  by (simp add: grows_def set_ready_def)

lemma grows_clean_up_tracking: "grows s (clean_up_tracking c s)"
  by (simp add: grows_def clean_up_tracking_def)

lemma grows_rearm: "grows s (rearm c cb at s)"
  by (auto simp: rearm_def Let_def grows_def setTimeout_def clearTimeout_def split: option.splits)

lemma grows_arm_delivery: "grows s (arm_delivery d at s)"
  using grows_cancel_delivery[of s d]
  by (auto simp: arm_delivery_def grows_def setTimeout_def split: prod.splits)

lemma grows_fallback_timeout: "grows s (fallback_timeout d s)"
  by (simp add: grows_def fallback_timeout_def)

lemmas grows_chain = grows_trans[OF _ grows_set_ready] grows_trans[OF _ grows_clean_up_tracking]
  grows_trans[OF _ grows_get_or_create] grows_trans[OF _ grows_sort_in_place]
  grows_trans[OF _ grows_rearm] grows_trans[OF _ grows_push] grows_trans[OF _ grows_global_array]
  grows_trans[OF _ grows_new_message] grows_trans[OF _ grows_arm_delivery]
  grows_trans[OF _ grows_new_array]

lemma grows_finalizeMessages: "grows s (finalizeMessages c s)"
  by (auto simp: finalizeMessages_def case_prod_beta split: option.splits
      intro!: grows_chain grows_clean_up_tracking)

lemma grows_finalize_timeout: "grows s (finalize_timeout c s)"
  by (auto simp: finalize_timeout_def case_prod_beta split: option.splits
      intro!: grows_chain grows_clean_up_tracking)

lemma grows_fire: "grows s (fire now h s)"
proof -
  have "grows s (run_callback cb (clearTimeout h s))" for cb
    by (cases cb) (auto intro: grows_trans[OF grows_clearTimeout]
        grows_finalizeMessages grows_finalize_timeout grows_fallback_timeout)
  then show ?thesis by (simp add: fire_def split: option.splits)
qed

lemma grows_new_messages: "grows s (snd (new_messages ms s))"
proof (induction ms arbitrary: s)
  case (Cons m ms)
  from grows_trans[OF grows_new_message Cons.IH] show ?case
    by (simp add: case_prod_beta)
qed simp

lemma grows_monitor_tick: "grows s (monitor_tick now c fetched s)"
  by (auto simp: monitor_tick_def case_prod_beta intro!: grows_chain grows_new_messages)

lemma grows_store_bot_message: "grows s (store_bot_message now rnd p s)"
  by (auto simp: store_bot_message_def Let_def case_prod_beta intro!: grows_chain grows_global_array)

lemma grows_store_fallback: "grows s (store_fallback now p s)"
proof -
  have *: "grows s s' \<Longrightarrow> grows s (s'\<lparr>userMessages := x\<rparr>)" for s' x
    by (simp add: grows_def)
  show ?thesis
    by (auto simp: store_fallback_def Let_def case_prod_beta intro!: * grows_chain grows_get_or_create)
qed

lemma grows_prune: "grows s (prune cutoff d s)"
  by (auto simp: prune_def Let_def grows_def new_array_def)

lemma grows_cleanup_entry: "grows s (cleanup_entry cutoff e s)"
  by (cases e) (auto simp: cleanup_entry_def Let_def intro: grows_prune grows_trans[OF grows_prune grows_delete_entry])

lemma grows_fold_cleanup_entry: "grows s (fold (cleanup_entry cutoff) es s)"
proof (induction es arbitrary: s)
  case (Cons e es)
  from grows_trans[OF grows_cleanup_entry Cons.IH] show ?case by simp
qed simp

lemma grows_cleanup: "grows s (cleanup now s)"
  using grows_fold_cleanup_entry[of s "now - retention" "botMessages s"]
  by (simp add: cleanup_def Let_def grows_def)

lemma grows_botpress_webhook: "grows s (botpress_webhook now rnd p s)"
  by (cases "isBot p")
     (auto simp: botpress_webhook_def intro: grows_cleanup
        grows_trans[OF grows_store_bot_message grows_cleanup]
        grows_trans[OF grows_store_fallback grows_cleanup])

lemma grows_step: "grows s (step e s)"
  by (cases e; cases "snd e")
     (auto simp: grows_track grows_poll grows_botpress_webhook grows_monitor_tick grows_fire)


lemma undelivered_mark:
  "set (undelivered s ms) \<subseteq> set r \<Longrightarrow> undelivered (mark_delivered r s) ms = []"
  by (auto simp: undelivered_def mark_delivered_eq filter_empty_conv)

lemma conversationData_mark [simp]:
  "conversationData (mark_delivered r s) c = conversationData s c"
  by (simp add: conversationData_def mark_delivered_eq split: option.splits)

lemma arrays_mark [simp]: "arrays (mark_delivered r s) = arrays s"
  by (simp add: mark_delivered_eq)

lemma by_timestamp_Nil [simp]: "by_timestamp s [] = []"
  by (simp add: by_timestamp_def)

lemma set_by_timestamp [simp]: "set (by_timestamp s ms) = set ms"
  by (simp add: by_timestamp_def)

lemma poll_MessagesD:
  assumes "bot_response c s = (Messages r, s')"
  shows "\<exists>cd. conversationData s c = Some cd \<and> length (arrays s (messages cd)) > 0 \<and>
    allMessagesReceived cd \<and> r = by_timestamp s (undelivered s (arrays s (messages cd))) \<and>
    r \<noteq> [] \<and> s' = mark_delivered r s"
  using assms by (auto simp: bot_response_def Let_def split: option.splits if_splits)

lemma poll_twice:
  assumes "bot_response c s = (Messages r, s')"
  shows "(\<forall>m\<in>set r. msg_delivered (msgs s' m)) \<and> bot_response c s' = (All_Delivered, s')"
proof -
  from assms obtain cd where cd: "conversationData s c = Some cd"
    and len: "length (arrays s (messages cd)) > 0" and fin: "allMessagesReceived cd"
    and r: "r = by_timestamp s (undelivered s (arrays s (messages cd)))"
    and s': "s' = mark_delivered r s"
    using poll_MessagesD[of c s r s'] by auto
  have "undelivered s' (arrays s (messages cd)) = []"
    unfolding s' by (rule undelivered_mark) (simp add: r)
  with cd len fin have "bot_response c s' = (All_Delivered, s')"
    by (simp add: bot_response_def s')
  moreover have "\<forall>m\<in>set r. msg_delivered (msgs s' m)"
    by (simp add: s' mark_delivered_eq)
  ultimately show ?thesis by simp
qed

lemma polled_fresh_undelivered:
  assumes "wf s" "m \<in> set (polled e s)"
  shows "m < fresh s \<and> \<not> msg_delivered (msgs s m) \<and> msg_delivered (msgs (step e s) m)"
proof -
  obtain now ev where e: "e = (now, ev)" by force
  with assms(2) obtain c where ev: "ev = Poll c" by (cases ev) auto
  obtain resp s' where p: "bot_response c s = (resp, s')" by force
  with assms(2) e ev obtain r where r: "resp = Messages r" "m \<in> set r"
    by (cases resp) auto
  from p r(1) have "bot_response c s = (Messages r, s')" by simp
  from poll_MessagesD[OF this]
  obtain cd :: conversation_data
    where "r = by_timestamp s (undelivered s (arrays s (messages cd)))"
    by blast
  with r(2) have "m \<in> set (arrays s (messages cd))" "\<not> msg_delivered (msgs s m)"
    by (auto simp: undelivered_def)
  moreover from poll_twice p r have "msg_delivered (msgs s' m)" by blast
  ultimately show ?thesis using assms(1) e ev p by (auto dest: wf_arrayD)
qed

lemma deliveries_disjoint_aux:
  "wf s \<Longrightarrow>
   (\<forall>r\<in>set (deliveries evs s). \<forall>m\<in>set r. \<not> (m < fresh s \<and> msg_delivered (msgs s m))) \<and>
   (\<forall>i j. i < j \<and> j < length (deliveries evs s) \<longrightarrow>
      set (deliveries evs s ! i) \<inter> set (deliveries evs s ! j) = {})"
proof (induction evs arbitrary: s)
  case Nil
  then show ?case by simp
next
  case (Cons e es)
  let ?s' = "step e s"
  have wf': "wf ?s'" using Cons.prems by (rule wf_step)
  note IH = Cons.IH[OF wf']
  have g: "grows s ?s'" by (rule grows_step)
  have head: "\<forall>m\<in>set (polled e s). m < fresh s \<and> \<not> msg_delivered (msgs s m) \<and> msg_delivered (msgs ?s' m)"
    using polled_fresh_undelivered[OF Cons.prems] by blast
  have later: "\<forall>r\<in>set (deliveries es ?s'). \<forall>m\<in>set r. \<not> (m < fresh s \<and> msg_delivered (msgs s m))"
    using IH g unfolding grows_def by (meson less_le_trans)
  have first: "\<forall>r\<in>set (deliveries es ?s'). set (polled e s) \<inter> set r = {}"
  proof (intro ballI)
    fix r assume r: "r \<in> set (deliveries es ?s')"
    show "set (polled e s) \<inter> set r = {}"
    proof (rule ccontr)
      assume "set (polled e s) \<inter> set r \<noteq> {}"
      then obtain m where m: "m \<in> set (polled e s)" "m \<in> set r" by auto
      from head m(1) g have "m < fresh ?s' \<and> msg_delivered (msgs ?s' m)"
        unfolding grows_def by auto
      with IH r m(2) show False by blast
    qed
  qed
  have pair: "set ((polled e s # deliveries es ?s') ! i) \<inter> set ((polled e s # deliveries es ?s') ! j) = {}"
    if "i < j" "j < Suc (length (deliveries es ?s'))" for i j
  proof (cases i)
    case 0
    with that obtain j' where "j = Suc j'" "j' < length (deliveries es ?s')"
      by (cases j) auto
    with 0 first show ?thesis by simp
  next
    case (Suc i')
    with that obtain j' where "j = Suc j'" "i' < j'" "j' < length (deliveries es ?s')"
      by (cases j) auto
    with Suc IH show ?thesis by simp
  qed
  from head later pair show ?case by auto
qed

subsection \<open>The effect of each step on each part of the state\<close>

lemma new_array_fields [simp]:
  "fst (new_array xs s) = fresh s"
  "fresh (snd (new_array xs s)) = Suc (fresh s)"
  "arrays (snd (new_array xs s)) = (arrays s)(fresh s := xs)"
  "timers (snd (new_array xs s)) = timers s"
  "conversationTimeouts (snd (new_array xs s)) = conversationTimeouts s"
  "userMessages (snd (new_array xs s)) = userMessages s"
  "botMessages (snd (new_array xs s)) = botMessages s"
  "globalMessages (snd (new_array xs s)) = globalMessages s"
  "objects (snd (new_array xs s)) = objects s"
  "msgs (snd (new_array xs s)) = msgs s"
  by (simp_all add: new_array_def)

lemma new_message_fields [simp]:
  "fst (new_message m s) = fresh s"
  "fresh (snd (new_message m s)) = Suc (fresh s)"
  "msgs (snd (new_message m s)) = (msgs s)(fresh s := m)"
  "timers (snd (new_message m s)) = timers s"
  "conversationTimeouts (snd (new_message m s)) = conversationTimeouts s"
  "userMessages (snd (new_message m s)) = userMessages s"
  "botMessages (snd (new_message m s)) = botMessages s"
  "globalMessages (snd (new_message m s)) = globalMessages s"
  "objects (snd (new_message m s)) = objects s"
  "arrays (snd (new_message m s)) = arrays s"
  by (simp_all add: new_message_def)

lemma new_object_fields [simp]:
  "fst (new_object v s) = fresh s"
  "fresh (snd (new_object v s)) = Suc (fresh s)"
  "objects (snd (new_object v s)) = (objects s)(fresh s := v)"
  "timers (snd (new_object v s)) = timers s"
  "conversationTimeouts (snd (new_object v s)) = conversationTimeouts s"
  "userMessages (snd (new_object v s)) = userMessages s"
  "botMessages (snd (new_object v s)) = botMessages s"
  "globalMessages (snd (new_object v s)) = globalMessages s"
  "msgs (snd (new_object v s)) = msgs s"
  "arrays (snd (new_object v s)) = arrays s"
  by (simp_all add: new_object_def)

lemma setTimeout_fields [simp]:
  "fst (setTimeout cb at s) = fresh s"
  "fresh (snd (setTimeout cb at s)) = Suc (fresh s)"
  "timers (snd (setTimeout cb at s)) = (timers s)(fresh s \<mapsto> \<lparr>due = at, callback = cb\<rparr>)"
  "conversationTimeouts (snd (setTimeout cb at s)) = conversationTimeouts s"
  "userMessages (snd (setTimeout cb at s)) = userMessages s"
  "botMessages (snd (setTimeout cb at s)) = botMessages s"
  "globalMessages (snd (setTimeout cb at s)) = globalMessages s"
  "objects (snd (setTimeout cb at s)) = objects s"
  "msgs (snd (setTimeout cb at s)) = msgs s"
  "arrays (snd (setTimeout cb at s)) = arrays s"
  by (simp_all add: setTimeout_def)

lemma clearTimeout_fields [simp]:
  "fresh (clearTimeout h s) = fresh s"
  "timers (clearTimeout h s) = (timers s)(h := None)"
  "conversationTimeouts (clearTimeout h s) = conversationTimeouts s"
  "userMessages (clearTimeout h s) = userMessages s"
  "botMessages (clearTimeout h s) = botMessages s"
  "globalMessages (clearTimeout h s) = globalMessages s"
  "objects (clearTimeout h s) = objects s"
  "msgs (clearTimeout h s) = msgs s"
  "arrays (clearTimeout h s) = arrays s"
  by (simp_all add: clearTimeout_def)

lemma push_fields [simp]:
  "fresh (push a ms s) = fresh s"
  "arrays (push a ms s) = (arrays s)(a := arrays s a @ ms)"
  "timers (push a ms s) = timers s"
  "conversationTimeouts (push a ms s) = conversationTimeouts s"
  "userMessages (push a ms s) = userMessages s"
  "botMessages (push a ms s) = botMessages s"
  "globalMessages (push a ms s) = globalMessages s"
  "objects (push a ms s) = objects s"
  "msgs (push a ms s) = msgs s"
  by (simp_all add: push_def)

lemma sort_in_place_fields [simp]:
  "arrays (sort_in_place a s) = (arrays s)(a := by_timestamp s (arrays s a))"
  "timers (sort_in_place a s) = timers s"
  "conversationTimeouts (sort_in_place a s) = conversationTimeouts s"
  "userMessages (sort_in_place a s) = userMessages s"
  "botMessages (sort_in_place a s) = botMessages s"
  "objects (sort_in_place a s) = objects s"
  "msgs (sort_in_place a s) = msgs s"
  by (simp_all add: sort_in_place_def)

lemma set_ready_fields [simp]:
  "fresh (set_ready d a s) = fresh s"
  "objects (set_ready d a s) =
     (objects s)(d := (objects s d)\<lparr>messages := a, allMessagesReceived := True,
                                      deliveryTimeoutId := None\<rparr>)"
  "arrays (set_ready d a s) = arrays s"
  "timers (set_ready d a s) = timers s"
  "conversationTimeouts (set_ready d a s) = conversationTimeouts s"
  "userMessages (set_ready d a s) = userMessages s"
  "botMessages (set_ready d a s) = botMessages s"
  "globalMessages (set_ready d a s) = globalMessages s"
  "msgs (set_ready d a s) = msgs s"
  by (simp_all add: set_ready_def)

lemma clean_up_tracking_fields [simp]:
  "fresh (clean_up_tracking c s) = fresh s"
  "userMessages (clean_up_tracking c s) = AList.delete c (userMessages s)"
  "conversationTimeouts (clean_up_tracking c s) = (conversationTimeouts s)(c := None)"
  "objects (clean_up_tracking c s) = objects s"
  "arrays (clean_up_tracking c s) = arrays s"
  "timers (clean_up_tracking c s) = timers s"
  "botMessages (clean_up_tracking c s) = botMessages s"
  "globalMessages (clean_up_tracking c s) = globalMessages s"
  "msgs (clean_up_tracking c s) = msgs s"
  by (simp_all add: clean_up_tracking_def)

lemma fallback_timeout_fields [simp]:
  "fresh (fallback_timeout d s) = fresh s"
  "objects (fallback_timeout d s) =
     (objects s)(d := (objects s d)\<lparr>allMessagesReceived := True, deliveryTimeoutId := None\<rparr>)"
  "arrays (fallback_timeout d s) = arrays s"
  "timers (fallback_timeout d s) = timers s"
  "conversationTimeouts (fallback_timeout d s) = conversationTimeouts s"
  "userMessages (fallback_timeout d s) = userMessages s"
  "botMessages (fallback_timeout d s) = botMessages s"
  "globalMessages (fallback_timeout d s) = globalMessages s"
  "msgs (fallback_timeout d s) = msgs s"
  by (simp_all add: fallback_timeout_def)

lemma cancel_delivery_fields [simp]:
  "fresh (cancel_delivery d s) = fresh s"
  "conversationTimeouts (cancel_delivery d s) = conversationTimeouts s"
  "userMessages (cancel_delivery d s) = userMessages s"
  "globalMessages (cancel_delivery d s) = globalMessages s"
  "objects (cancel_delivery d s) = objects s"
  "msgs (cancel_delivery d s) = msgs s"
  "arrays (cancel_delivery d s) = arrays s"
  by (simp_all add: cancel_delivery_def split: option.splits)

lemma timers_cancel_delivery:
  "timers (cancel_delivery d s) =
     (case deliveryTimeoutId (objects s d) of None \<Rightarrow> timers s | Some h \<Rightarrow> (timers s)(h := None))"
  by (simp add: cancel_delivery_def split: option.splits)

lemma delete_entry_fields [simp]:
  "fresh (delete_entry key d s) = fresh s"
  "botMessages (delete_entry key d s) = AList.delete key (botMessages s)"
  "timers (delete_entry key d s) = timers (cancel_delivery d s)"
  "conversationTimeouts (delete_entry key d s) = conversationTimeouts s"
  "userMessages (delete_entry key d s) = userMessages s"
  "globalMessages (delete_entry key d s) = globalMessages s"
  "objects (delete_entry key d s) = objects s"
  "msgs (delete_entry key d s) = msgs s"
  "arrays (delete_entry key d s) = arrays s"
  by (simp_all add: delete_entry_def Let_def)

lemma get_or_create_fields [simp]:
  "timers (snd (get_or_create c s)) = timers s"
  "conversationTimeouts (snd (get_or_create c s)) = conversationTimeouts s"
  "userMessages (snd (get_or_create c s)) = userMessages s"
  "globalMessages (snd (get_or_create c s)) = globalMessages s"
  "msgs (snd (get_or_create c s)) = msgs s"
  "map_of (botMessages (snd (get_or_create c s))) c = Some (fst (get_or_create c s))"
  by (simp_all add: get_or_create_def case_prod_beta AList.update_conv' split: option.splits)

lemma global_array_fields [simp]:
  "timers (snd (global_array c s)) = timers s"
  "conversationTimeouts (snd (global_array c s)) = conversationTimeouts s"
  "userMessages (snd (global_array c s)) = userMessages s"
  "botMessages (snd (global_array c s)) = botMessages s"
  "objects (snd (global_array c s)) = objects s"
  "msgs (snd (global_array c s)) = msgs s"
  "globalMessages (snd (global_array c s)) c = Some (fst (global_array c s))"
  by (simp_all add: global_array_def case_prod_beta split: option.splits)

lemma rearm_fields [simp]:
  "userMessages (rearm c cb at s) = userMessages s"
  "botMessages (rearm c cb at s) = botMessages s"
  "globalMessages (rearm c cb at s) = globalMessages s"
  "objects (rearm c cb at s) = objects s"
  "msgs (rearm c cb at s) = msgs s"
  "arrays (rearm c cb at s) = arrays s"
  "conversationTimeouts (rearm c cb at s) = (conversationTimeouts s)(c \<mapsto> fresh s)"
  by (simp_all add: rearm_def Let_def case_prod_beta split: option.splits)

lemma timers_rearm:
  "timers (rearm c cb at s) =
     ((case conversationTimeouts s c of None \<Rightarrow> timers s | Some h \<Rightarrow> (timers s)(h := None)))
       (fresh s \<mapsto> \<lparr>due = at, callback = cb\<rparr>)"
  by (simp add: rearm_def Let_def case_prod_beta split: option.splits)

lemma arm_delivery_fields [simp]:
  "userMessages (arm_delivery d at s) = userMessages s"
  "botMessages (arm_delivery d at s) = botMessages s"
  "globalMessages (arm_delivery d at s) = globalMessages s"
  "conversationTimeouts (arm_delivery d at s) = conversationTimeouts s"
  "msgs (arm_delivery d at s) = msgs s"
  "arrays (arm_delivery d at s) = arrays s"
  "objects (arm_delivery d at s) = (objects s)(d := (objects s d)\<lparr>deliveryTimeoutId := Some (fresh s)\<rparr>)"
  "timers (arm_delivery d at s) =
     (timers (cancel_delivery d s))(fresh s \<mapsto> \<lparr>due = at, callback = Fallback_Timeout d\<rparr>)"
  by (simp_all add: arm_delivery_def case_prod_beta)

lemma prune_fields [simp]:
  "userMessages (prune cutoff d s) = userMessages s"
  "botMessages (prune cutoff d s) = botMessages s"
  "globalMessages (prune cutoff d s) = globalMessages s"
  "conversationTimeouts (prune cutoff d s) = conversationTimeouts s"
  "msgs (prune cutoff d s) = msgs s"
  "timers (prune cutoff d s) = timers s"
  by (simp_all add: prune_def Let_def case_prod_beta)

lemma mark_delivered_fields [simp]:
  "fresh (mark_delivered r s) = fresh s"
  "userMessages (mark_delivered r s) = userMessages s"
  "botMessages (mark_delivered r s) = botMessages s"
  "globalMessages (mark_delivered r s) = globalMessages s"
  "conversationTimeouts (mark_delivered r s) = conversationTimeouts s"
  "objects (mark_delivered r s) = objects s"
  "timers (mark_delivered r s) = timers s"
  by (simp_all add: mark_delivered_eq)

lemma bot_response_fields [simp]:
  "fresh (snd (bot_response c s)) = fresh s"
  "userMessages (snd (bot_response c s)) = userMessages s"
  "botMessages (snd (bot_response c s)) = botMessages s"
  "globalMessages (snd (bot_response c s)) = globalMessages s"
  "conversationTimeouts (snd (bot_response c s)) = conversationTimeouts s"
  "objects (snd (bot_response c s)) = objects s"
  "arrays (snd (bot_response c s)) = arrays s"
  "timers (snd (bot_response c s)) = timers s"
  by (simp_all add: bot_response_def Let_def split: option.splits)

subsection \<open>Tracked user messages\<close>

lemma map_of_delete_None: "map_of al k = None \<Longrightarrow> map_of (AList.delete k' al) k = None"
  by (simp add: AList.delete_conv')

lemma map_of_delete_same [simp]: "map_of (AList.delete k al) k = None"
  by (simp add: AList.delete_conv')

lemma map_of_filter_None: "map_of al k = None \<Longrightarrow> map_of (filter P al) k = None"
  by (auto simp: map_of_eq_None_iff)

lemma userMessages_finalizeMessages [simp]:
  "userMessages (finalizeMessages c s) = AList.delete c (userMessages s)"
  by (simp add: finalizeMessages_def case_prod_beta split: option.splits)

lemma userMessages_finalize_timeout [simp]:
  "userMessages (finalize_timeout c s) = AList.delete c (userMessages s)"
  by (simp add: finalize_timeout_def case_prod_beta split: option.splits)

lemma userMessages_new_messages [simp]:
  "userMessages (snd (new_messages ms s)) = userMessages s"
  by (induction ms arbitrary: s) (simp_all add: case_prod_beta)

lemma userMessages_monitor_tick [simp]:
  "userMessages (monitor_tick now c fetched s) = userMessages s"
  by (simp add: monitor_tick_def case_prod_beta)

lemma userMessages_store_bot_message [simp]:
  "userMessages (store_bot_message now rnd p s) = userMessages s"
  by (simp add: store_bot_message_def Let_def case_prod_beta)

lemma userMessages_store_fallback:
  "userMessages (store_fallback now p s) =
     (if accepted_fallback p s then AList.delete (the (conversationId p)) (userMessages s)
      else userMessages s)"
  by (simp add: store_fallback_def Let_def case_prod_beta)

lemma userMessages_cleanup_entry [simp]:
  "userMessages (cleanup_entry cutoff e s) = userMessages s"
  by (cases e) (simp add: cleanup_entry_def Let_def)

lemma userMessages_fold_cleanup_entry [simp]:
  "userMessages (fold (cleanup_entry cutoff) es s) = userMessages s"
  by (induction es arbitrary: s) simp_all

lemma userMessages_cleanup:
  "userMessages (cleanup now s) =
     filter (\<lambda>(key, v). \<not> um_timestamp v < now - retention) (userMessages s)"
  by (simp add: cleanup_def Let_def)

lemma untracked_fire:
  "map_of (userMessages s) c = None \<Longrightarrow> map_of (userMessages (fire now h s)) c = None"
proof -
  assume a: "map_of (userMessages s) c = None"
  have "map_of (userMessages (run_callback cb (clearTimeout h s))) c = None" for cb
    using a by (cases cb) (simp_all add: map_of_delete_None)
  with a show ?thesis by (simp add: fire_def split: option.splits)
qed

lemma untracked_webhook:
  "map_of (userMessages s) c = None \<Longrightarrow>
   map_of (userMessages (botpress_webhook now rnd p s)) c = None"
  by (cases "isBot p")
     (simp_all add: botpress_webhook_def userMessages_cleanup userMessages_store_fallback
        map_of_filter_None map_of_delete_None)

subsection \<open>Rejected payloads\<close>

lemma timers_cleanup_entry:
  "timers (cleanup_entry cutoff e s) h = Some t \<Longrightarrow> timers s h = Some t"
  by (cases e) (auto simp: cleanup_entry_def Let_def timers_cancel_delivery split: if_splits option.splits)

lemma timers_fold_cleanup_entry:
  "timers (fold (cleanup_entry cutoff) es s) h = Some t \<Longrightarrow> timers s h = Some t"
  by (induction es arbitrary: s) (auto dest: timers_cleanup_entry)

lemma timers_cleanup: "timers (cleanup now s) h = Some t \<Longrightarrow> timers s h = Some t"
  by (auto simp: cleanup_def Let_def dest: timers_fold_cleanup_entry)

subsection \<open>The cleanup pass\<close>

lemma filter_same_length: "length (filter P xs) = length xs \<Longrightarrow> filter P xs = xs"
proof (induction xs)
  case (Cons x xs)
  have le: "length (filter P xs) \<le> length xs" by simp
  show ?case
  proof (cases "P x")
    case True
    with Cons show ?thesis by simp
  next
    case False
    with Cons.prems le show ?thesis by simp
  qed
qed simp

lemma prune_messages:
  "arrays (prune cutoff d s) (messages (objects (prune cutoff d s) d)) =
     recent cutoff s (arrays s (messages (objects s d)))"
  by (auto simp: prune_def Let_def case_prod_beta recent_def dest: filter_same_length)

lemma prune_frame:
  "fresh s \<le> fresh (prune cutoff d s)"
  "a < fresh s \<Longrightarrow> arrays (prune cutoff d s) a = arrays s a"
  "d' \<noteq> d \<Longrightarrow> objects (prune cutoff d s) d' = objects s d'"
  "allMessagesReceived (objects (prune cutoff d s) d') = allMessagesReceived (objects s d')"
  "deliveryTimeoutId (objects (prune cutoff d s) d') = deliveryTimeoutId (objects s d')"
  "messages (objects s d) < fresh s \<Longrightarrow>
     messages (objects (prune cutoff d s) d) < fresh (prune cutoff d s)"
  by (auto simp: prune_def Let_def case_prod_beta)

lemma cleanup_entry_frame:
  assumes "s' = cleanup_entry cutoff (k', d') s"
  shows "msgs s' = msgs s" "fresh s \<le> fresh s'" "globalMessages s' = globalMessages s"
    "conversationTimeouts s' = conversationTimeouts s"
    "\<And>a. a < fresh s \<Longrightarrow> arrays s' a = arrays s a"
    "\<And>d. d \<noteq> d' \<Longrightarrow> objects s' d = objects s d"
    "\<And>d. allMessagesReceived (objects s' d) = allMessagesReceived (objects s d)"
    "\<And>d. deliveryTimeoutId (objects s' d) = deliveryTimeoutId (objects s d)"
    "\<And>h. timers s h = None \<Longrightarrow> timers s' h = None"
    "\<And>k d. k \<noteq> k' \<Longrightarrow> (k, d) \<in> set (botMessages s') \<longleftrightarrow> (k, d) \<in> set (botMessages s)"
    "set (botMessages s') \<subseteq> set (botMessages s)"
  using assms
  by (auto simp: cleanup_entry_def Let_def timers_cancel_delivery AList.delete_eq prune_frame
      split: option.splits)

lemma fold_cleanup_frame:
  assumes "s' = fold (cleanup_entry cutoff) es s"
  shows "msgs s' = msgs s \<and> fresh s \<le> fresh s' \<and> globalMessages s' = globalMessages s \<and>
    conversationTimeouts s' = conversationTimeouts s \<and>
    (\<forall>a<fresh s. arrays s' a = arrays s a) \<and>
    (\<forall>d. d \<notin> snd ` set es \<longrightarrow> objects s' d = objects s d) \<and>
    (\<forall>d. allMessagesReceived (objects s' d) = allMessagesReceived (objects s d)) \<and>
    (\<forall>d. deliveryTimeoutId (objects s' d) = deliveryTimeoutId (objects s d)) \<and>
    (\<forall>h. timers s h = None \<longrightarrow> timers s' h = None) \<and>
    (\<forall>k d. k \<notin> fst ` set es \<longrightarrow> (k, d) \<in> set (botMessages s') \<longleftrightarrow> (k, d) \<in> set (botMessages s)) \<and>
    set (botMessages s') \<subseteq> set (botMessages s)"
  using assms
proof (induction es arbitrary: s)
  case Nil
  then show ?case by simp
next
  case (Cons e es)
  obtain k' d' where e: "e = (k', d')" by force
  define s1 where "s1 = cleanup_entry cutoff (k', d') s"
  note f = cleanup_entry_frame[OF s1_def]
  from Cons.prems e have "s' = fold (cleanup_entry cutoff) es s1" by (simp add: s1_def)
  note IH = Cons.IH[OF this]
  show ?case
  proof (intro conjI allI impI)
    show "msgs s' = msgs s" using IH f(1) by simp
    show "fresh s \<le> fresh s'" using IH f(2) by linarith
    show "globalMessages s' = globalMessages s" using IH f(3) by simp
    show "conversationTimeouts s' = conversationTimeouts s" using IH f(4) by simp
    show "arrays s' a = arrays s a" if "a < fresh s" for a
      using that IH f(2) f(5)[OF that] by (metis less_le_trans)
    show "objects s' d = objects s d" if "d \<notin> snd ` set (e # es)" for d
      using that IH f(6)[of d] e by auto
    show "allMessagesReceived (objects s' d) = allMessagesReceived (objects s d)" for d
      using IH f(7) by simp
    show "deliveryTimeoutId (objects s' d) = deliveryTimeoutId (objects s d)" for d
      using IH f(8) by simp
    show "timers s' h = None" if "timers s h = None" for h
      using that IH f(9) by blast
    show "(k, d) \<in> set (botMessages s') \<longleftrightarrow> (k, d) \<in> set (botMessages s)"
      if "k \<notin> fst ` set (e # es)" for k d
      using that IH f(10)[of k d] e by auto
    show "set (botMessages s') \<subseteq> set (botMessages s)"
      using IH f(11) by blast
  qed
qed

lemma cleanup_entry_skip: "still_receiving s d \<Longrightarrow> cleanup_entry cutoff (k, d) s = s"
  by (simp add: cleanup_entry_def)

lemma cleanup_entry_drop:
  assumes "\<not> still_receiving s d" "recent cutoff s (arrays s (messages (objects s d))) = []"
  shows "map_of (botMessages (cleanup_entry cutoff (k, d) s)) k = None"
    "deliveryTimeoutId (objects s d) = Some h \<Longrightarrow> timers (cleanup_entry cutoff (k, d) s) h = None"
  using assms prune_messages[of cutoff d s]
  by (simp_all add: cleanup_entry_def Let_def timers_cancel_delivery prune_frame)

lemma cleanup_entry_keep:
  assumes "\<not> still_receiving s d" "recent cutoff s (arrays s (messages (objects s d))) \<noteq> []"
  shows "botMessages (cleanup_entry cutoff (k, d) s) = botMessages s"
    "arrays (cleanup_entry cutoff (k, d) s) (messages (objects (cleanup_entry cutoff (k, d) s) d)) =
       recent cutoff s (arrays s (messages (objects s d)))"
    "messages (objects s d) < fresh s \<Longrightarrow>
       messages (objects (cleanup_entry cutoff (k, d) s) d) < fresh (cleanup_entry cutoff (k, d) s)"
  using assms prune_messages[of cutoff d s]
  by (simp_all add: cleanup_entry_def Let_def prune_frame)

lemma cleanup_fields:
  "botMessages (cleanup now s) = botMessages (fold (cleanup_entry (now - retention)) (botMessages s) s)"
  "objects (cleanup now s) = objects (fold (cleanup_entry (now - retention)) (botMessages s) s)"
  "arrays (cleanup now s) = arrays (fold (cleanup_entry (now - retention)) (botMessages s) s)"
  "timers (cleanup now s) = timers (fold (cleanup_entry (now - retention)) (botMessages s) s)"
  "msgs (cleanup now s) = msgs (fold (cleanup_entry (now - retention)) (botMessages s) s)"
  "fresh (cleanup now s) = fresh (fold (cleanup_entry (now - retention)) (botMessages s) s)"
  "globalMessages (cleanup now s) = globalMessages (fold (cleanup_entry (now - retention)) (botMessages s) s)"
  "conversationTimeouts (cleanup now s) = conversationTimeouts (fold (cleanup_entry (now - retention)) (botMessages s) s)"
  by (simp_all add: cleanup_def Let_def)

lemma cleanup_entry_of:
  fixes now :: int and s :: state
  assumes wf: "wf s" and mem: "(k, d) \<in> set (botMessages s)"
  defines "cutoff \<equiv> now - retention"
  defines "kept \<equiv> recent cutoff s (arrays s (messages (objects s d)))"
  defines "s' \<equiv> cleanup now s"
  shows "still_receiving s d \<Longrightarrow>
           (k, d) \<in> set (botMessages s') \<and> objects s' d = objects s d \<and>
           arrays s' (messages (objects s' d)) = arrays s (messages (objects s d))"
    and "\<not> still_receiving s d \<Longrightarrow> kept = [] \<Longrightarrow>
           map_of (botMessages s') k = None \<and>
           (\<forall>h. deliveryTimeoutId (objects s d) = Some h \<longrightarrow> timers s' h = None)"
    and "\<not> still_receiving s d \<Longrightarrow> kept \<noteq> [] \<Longrightarrow>
           (k, d) \<in> set (botMessages s') \<and> arrays s' (messages (objects s' d)) = kept"
proof -
  from mem obtain pre post where split: "botMessages s = pre @ (k, d) # post"
    by (auto simp: in_set_conv_decomp)
  from wf have "distinct (map fst (botMessages s))" "distinct (map snd (botMessages s))"
    by (simp_all add: wf_def)
  with split have notin: "k \<notin> fst ` set pre" "k \<notin> fst ` set post"
    "d \<notin> snd ` set pre" "d \<notin> snd ` set post"
    by auto
  define sa where "sa = fold (cleanup_entry cutoff) pre s"
  define sb where "sb = cleanup_entry cutoff (k, d) sa"
  define sc where "sc = fold (cleanup_entry cutoff) post sb"
  have sc: "sc = fold (cleanup_entry cutoff) (botMessages s) s"
    by (simp add: split sa_def sb_def sc_def)
  note fa = fold_cleanup_frame[OF sa_def]
  note fc = fold_cleanup_frame[OF sc_def]
  from wf mem have lt: "messages (objects s d) < fresh s" by (auto dest: wf_botD)
  have obj_a: "objects sa d = objects s d" using fa notin by simp
  have arr_a: "arrays sa (messages (objects sa d)) = arrays s (messages (objects s d))"
    using fa lt obj_a by simp
  have lt_a: "messages (objects sa d) < fresh sa" using fa lt obj_a by auto
  have mem_a: "(k, d) \<in> set (botMessages sa)" using fa notin mem by simp
  have still_a: "still_receiving sa d = still_receiving s d"
    by (simp add: still_receiving_def obj_a)
  have kept_a: "recent cutoff sa (arrays sa (messages (objects sa d))) = kept"
    using fa by (simp add: kept_def arr_a recent_def)
  have fields: "botMessages s' = botMessages sc" "objects s' = objects sc"
    "arrays s' = arrays sc" "timers s' = timers sc"
    by (simp_all add: s'_def sc cleanup_fields cutoff_def)
  have obj_c: "objects sc d = objects sb d" using fc notin by simp
  have mem_c: "(k, d0) \<in> set (botMessages sc) \<longleftrightarrow> (k, d0) \<in> set (botMessages sb)" for d0
    using fc notin by simp
  {
    assume still: "still_receiving s d"
    then have "sb = sa" by (simp add: sb_def still_a cleanup_entry_skip)
    moreover have "arrays sc (messages (objects sa d)) = arrays sb (messages (objects sa d))"
      using fc lt_a \<open>sb = sa\<close> by simp
    ultimately show "(k, d) \<in> set (botMessages s') \<and> objects s' d = objects s d \<and>
           arrays s' (messages (objects s' d)) = arrays s (messages (objects s d))"
      using mem_c mem_a obj_c obj_a arr_a by (simp add: fields)
  }
  {
    assume ns: "\<not> still_receiving s d" and e: "kept = []"
    from ns have ns': "\<not> still_receiving sa d" by (simp add: still_a)
    from e have e': "recent cutoff sa (arrays sa (messages (objects sa d))) = []"
      by (simp add: kept_a)
    note dr = cleanup_entry_drop[OF ns' e', where k=k, folded sb_def]
    have "map_of (botMessages sc) k = None"
      using dr(1) mem_c by (auto simp: map_of_eq_None_iff)
    moreover have "timers sc h = None" if "deliveryTimeoutId (objects s d) = Some h" for h
      using dr(2)[of h] that fc obj_a by simp
    ultimately show "map_of (botMessages s') k = None \<and>
           (\<forall>h. deliveryTimeoutId (objects s d) = Some h \<longrightarrow> timers s' h = None)"
      by (simp add: fields)
  }
  {
    assume ns: "\<not> still_receiving s d" and ne: "kept \<noteq> []"
    from ns have ns': "\<not> still_receiving sa d" by (simp add: still_a)
    from ne have ne': "recent cutoff sa (arrays sa (messages (objects sa d))) \<noteq> []"
      by (simp add: kept_a)
    note kp = cleanup_entry_keep[OF ns' ne', where k=k, folded sb_def]
    have "(k, d) \<in> set (botMessages sc)" using kp(1) mem_a mem_c by simp
    moreover have "arrays sc (messages (objects sc d)) = kept"
      using kp(2) kp(3)[OF lt_a] fc obj_c kept_a by simp
    ultimately show "(k, d) \<in> set (botMessages s') \<and> arrays s' (messages (objects s' d)) = kept"
      by (simp add: fields)
  }
qed

lemma cleanup_sizes:
  assumes wf: "wf s" and mem: "(k, d) \<in> set (botMessages (cleanup now s))"
  shows "(k, d) \<in> set (botMessages s) \<and>
         length (arrays (cleanup now s) (messages (objects (cleanup now s) d)))
           \<le> length (arrays s (messages (objects s d)))"
proof -
  from mem fold_cleanup_frame[OF refl, of "now - retention" "botMessages s" s]
  have mem0: "(k, d) \<in> set (botMessages s)" by (auto simp: cleanup_fields)
  note c = cleanup_entry_of[OF wf mem0, of now]
  show ?thesis
  proof (cases "still_receiving s d")
    case True
    with c(1) have "arrays (cleanup now s) (messages (objects (cleanup now s) d)) =
        arrays s (messages (objects s d))" by blast
    then show ?thesis unfolding \<open>arrays (cleanup now s) (messages (objects (cleanup now s) d)) =
        arrays s (messages (objects s d))\<close> using mem0 by simp
  next
    case False
    from mem have "map_of (botMessages (cleanup now s)) k \<noteq> None"
      by (auto simp: map_of_eq_None_iff intro: rev_image_eqI)
    with c(2)[OF False] have "recent (now - retention) s (arrays s (messages (objects s d))) \<noteq> []"
      by blast
    from c(3)[OF False this] mem0 show ?thesis by (simp add: recent_def)
  qed
qed

lemma arrays_cleanup: "a < fresh s \<Longrightarrow> arrays (cleanup now s) a = arrays s a"
  using fold_cleanup_frame[OF refl, of "now - retention" "botMessages s" s]
  by (simp add: cleanup_fields)

lemma globalMessages_cleanup [simp]: "globalMessages (cleanup now s) = globalMessages s"
  using fold_cleanup_frame[OF refl, of "now - retention" "botMessages s" s]
  by (simp add: cleanup_fields)

lemma placeholder_not_Nil [simp]: "placeholder \<noteq> []"
  by (simp add: placeholder_def)

lemmas model_defs = new_array_def new_message_def new_object_def setTimeout_def clearTimeout_def
  push_def by_timestamp_def sort_in_place_def or_null_def cancel_delivery_def delete_entry_def cleanup_previous_def
  track_user_message_def conversationData_def undelivered_def set_delivered_def mark_delivered_def bot_response_def fragments_def
  get_or_create_def set_ready_def clean_up_tracking_def finalizeMessages_def finalize_timeout_def fallback_timeout_def
  fire_def rearm_def global_array_def stored_ids_def is_new_bot_message_def to_message_def monitor_tick_def
  placeholder_def storable_def is_upper_def is_lower_def is_line_terminator_def looksLikeBotResponse_def
  store_bot_message_def arm_delivery_def accepted_fallback_def store_fallback_def retention_def still_receiving_def
  recent_def prune_def cleanup_entry_def cleanup_def botpress_webhook_def
  flagged_reply_def unflagged_reply_def empty_payload_def vendor_reply_def

lemma tracked_reached: "step (0, Track (Some ''c1'') (Some ''hello'')) initial_state = tracked"
  unfolding initial_state_def tracked_def step.simps model_defs Let_def
  by (simp add: model_defs Let_def eval_nat_numeral)

lemma collecting_state_reached: "step (1000, Webhook ''abc'' flagged_reply) tracked = collecting_state"
  unfolding tracked_def collecting_state_def step.simps model_defs Let_def
  by (simp add: model_defs Let_def eval_nat_numeral)

lemma finalized_state_reached: "step (7000, Fire 2) collecting_state = finalized_state"
  unfolding collecting_state_def finalized_state_def step.simps model_defs Let_def
  by (simp add: model_defs Let_def eval_nat_numeral)

lemma delivered_state_reached: "step (7100, Poll ''c1'') finalized_state = delivered_state"
  unfolding finalized_state_def delivered_state_def step.simps model_defs Let_def
  by (simp add: model_defs Let_def eval_nat_numeral)

lemma late_fragment_reached: "step (8000, Webhook ''def'' flagged_reply) delivered_state = late_fragment"
  unfolding delivered_state_def late_fragment_def step.simps model_defs Let_def
  by (simp add: model_defs Let_def eval_nat_numeral)

lemma delivered_again_reached: "step (8100, Poll ''c1'') late_fragment = delivered_again"
  unfolding late_fragment_def delivered_again_def step.simps model_defs Let_def
  by (simp add: model_defs Let_def eval_nat_numeral)

lemma tracked_again_reached: "step (2000, Track (Some ''c1'') (Some ''next question'')) collecting_state = tracked_again"
  unfolding collecting_state_def tracked_again_def step.simps model_defs Let_def
  by (simp add: model_defs Let_def eval_nat_numeral)

lemma orphan_fired_reached: "step (7000, Fire 2) tracked_again = orphan_fired"
  unfolding tracked_again_def orphan_fired_def step.simps model_defs Let_def
  by (simp add: model_defs Let_def eval_nat_numeral)

lemma mixed_reached: "step (3000, Webhook ''def'' (unflagged_reply ''c1'')) collecting_state = mixed"
  unfolding collecting_state_def mixed_def step.simps model_defs Let_def
  by (simp add: model_defs Let_def eval_nat_numeral)

lemma debounced_reached: "step (3000, Webhook ''def'' flagged_reply) collecting_state = debounced"
  unfolding collecting_state_def debounced_def step.simps model_defs Let_def
  by (simp add: model_defs Let_def eval_nat_numeral)

lemma fallback_once_reached: "step (1000, Webhook ''abc'' (unflagged_reply ''c1'')) initial_state = fallback_once"
  unfolding initial_state_def fallback_once_def step.simps model_defs Let_def
  by (simp add: model_defs Let_def eval_nat_numeral)

lemma fallback_twice_reached: "step (1000, Webhook ''def'' (unflagged_reply ''c1'')) fallback_once = fallback_twice"
  unfolding fallback_once_def fallback_twice_def step.simps model_defs Let_def
  by (simp add: model_defs Let_def eval_nat_numeral)

lemma monitored_reached: "step (400, Monitor ''c1'' [vendor_reply ''a'' 300, vendor_reply ''b'' 100, vendor_reply ''c'' 200]) initial_state = monitored"
  unfolding initial_state_def monitored_def step.simps model_defs Let_def
  by (simp add: model_defs Let_def eval_nat_numeral)

lemma monitored_final_reached: "step (5400, Fire 4) monitored = monitored_final"
  unfolding monitored_def monitored_final_def step.simps model_defs Let_def
  by (simp add: model_defs Let_def eval_nat_numeral)

lemma two_buffers_reached: "step (200000, Webhook ''xyz'' (unflagged_reply ''c2'')) finalized_state = two_buffers"
  unfolding finalized_state_def two_buffers_def step.simps model_defs Let_def
  by (simp add: model_defs Let_def eval_nat_numeral)

lemma old_state_reached: "step (200100, Track (Some ''c3'') (Some ''hi'')) two_buffers = old_state"
  unfolding two_buffers_def old_state_def step.simps model_defs Let_def
  by (simp add: model_defs Let_def eval_nat_numeral)

lemma swept_reached: "cleanup 600000 old_state = swept"
  unfolding old_state_def swept_def step.simps model_defs Let_def
  by (simp add: model_defs Let_def eval_nat_numeral)

section \<open>The claims\<close>

text \<open>
  Claim C8. Tracking fails exactly when the conversation id or the text is missing or empty
  (the response is the validation error, status 400), and in that case the state (tracked
  messages, buffers, timers) is the state before the call.
\<close>

theorem track_validation:
  "(fst (track_user_message now cid utext s) = Bad_Request
      \<longleftrightarrow> cid = None \<or> cid = Some [] \<or> utext = None \<or> utext = Some []) \<and>
   (fst (track_user_message now cid utext s) = Bad_Request
      \<longrightarrow> snd (track_user_message now cid utext s) = s)"
  by (cases cid; cases utext) (auto simp: track_user_message_def Let_def)

theorem track_validation_witness:
  "fst (track_user_message 5 (Some ''c1'') (Some []) collecting_state) = Bad_Request \<and>
   snd (track_user_message 5 (Some ''c1'') (Some []) collecting_state) = collecting_state \<and>
   fst (track_user_message 5 (Some ''c1'') (Some ''hello'') collecting_state) \<noteq> Bad_Request"
  using track_validation [of 5 "Some ''c1''" "Some []" collecting_state]
    track_validation [of 5 "Some ''c1''" "Some ''hello''" collecting_state]
  by simp

text \<open>
  Claim C10. The quiet-period callback deletes the tracked user message of its conversation,
  in both variants (\<^verbatim>\<open>finalizeMessages\<close> and the webhook's timeout), also when it is run by
  the event loop; and once the message is gone it stays gone under every step other than a
  new tracking call for that conversation.
\<close>

theorem finalize_deletes_tracked:
  "map_of (userMessages (finalize_timeout c s)) c = None \<and>
   map_of (userMessages (finalizeMessages c s)) c = None \<and>
   (timers s h = Some t \<and> due t \<le> now \<and>
    (callback t = Finalize_Timeout c \<or> callback t = Finalize_Messages c)
      \<longrightarrow> map_of (userMessages (fire now h s)) c = None) \<and>
   (map_of (userMessages s) c = None \<and> (\<forall>utext. e \<noteq> Track (Some c) utext)
      \<longrightarrow> map_of (userMessages (step (now', e) s)) c = None)"
proof -
  have "map_of (userMessages (step (now', e) s)) c = None"
    if "map_of (userMessages s) c = None" "\<forall>utext. e \<noteq> Track (Some c) utext"
  proof (cases e)
    case (Track cid utext)
    with that(2) have "cid \<noteq> Some c" by auto
    with that(1) Track show ?thesis
      by (cases cid) (auto simp: track_user_message_def Let_def cleanup_previous_def
          AList.update_conv' split: option.splits)
  qed (use that(1) in \<open>simp_all add: untracked_fire untracked_webhook\<close>)
  then show ?thesis by (auto simp: fire_def)
qed

theorem finalize_deletes_tracked_witness:
  "map_of (userMessages collecting_state) ''c1'' \<noteq> None \<and>
   timers collecting_state 2 = Some \<lparr>due = 7000, callback = Finalize_Timeout ''c1''\<rparr> \<and>
   map_of (userMessages (fire 7000 2 collecting_state)) ''c1'' = None \<and>
   map_of (userMessages (step (7100, Poll ''c1'') (fire 7000 2 collecting_state))) ''c1'' = None"
proof -
  have t: "timers collecting_state 2 = Some \<lparr>due = 7000, callback = Finalize_Timeout ''c1''\<rparr>"
    and u: "map_of (userMessages collecting_state) ''c1'' \<noteq> None"
    by (simp_all add: collecting_state_def)
  from t finalize_deletes_tracked
         [of "''c1''" collecting_state 2 "\<lparr>due = 7000, callback = Finalize_Timeout ''c1''\<rparr>" 7000]
  have f: "map_of (userMessages (fire 7000 2 collecting_state)) ''c1'' = None" by simp
  with finalize_deletes_tracked
         [of "''c1''" "fire 7000 2 collecting_state" _ _ _ "Poll ''c1''" 7100]
  have "map_of (userMessages (step (7100, Poll ''c1'') (fire 7000 2 collecting_state))) ''c1'' = None"
    by simp
  with t u f show ?thesis by simp
qed

text \<open>
  Claim C6. A webhook payload with neither text nor image, or whose text contains the
  template placeholder \<^verbatim>\<open>{{ $json\<close>, is not stored by either storing branch: the handler only
  runs its cleanup pass. No timer is armed by it, \<^verbatim>\<open>globalMessages\<close> and every existing array are
  as before, and no entry of \<^verbatim>\<open>botMessages\<close> is new or longer than before. The handler has
  answered with status 200 before any of it, so nothing is raised to the caller.
\<close>

theorem rejected_payload:
  assumes "(\<not> truthy (botText p) \<and> \<not> truthy (botImage p)) \<or>
           (\<exists>t. botText p = Some t \<and> str_includes t placeholder)"
  shows "store_bot_message now rnd p s = s \<and> store_fallback now p s = s \<and>
         botpress_webhook now rnd p s = cleanup now s \<and>
         (\<forall>h t. timers (botpress_webhook now rnd p s) h = Some t \<longrightarrow> timers s h = Some t) \<and>
         globalMessages (botpress_webhook now rnd p s) = globalMessages s \<and>
         (\<forall>a<fresh s. arrays (botpress_webhook now rnd p s) a = arrays s a) \<and>
         (wf s \<longrightarrow>
            (\<forall>(k, d)\<in>set (botMessages (botpress_webhook now rnd p s)).
               (k, d) \<in> set (botMessages s) \<and>
               length (arrays (botpress_webhook now rnd p s)
                         (messages (objects (botpress_webhook now rnd p s) d)))
                 \<le> length (arrays s (messages (objects s d)))))"
proof -
  from assms have ns: "\<not> storable p"
    by (cases "botText p") (auto simp: storable_def)
  then have a: "store_bot_message now rnd p s = s" "store_fallback now p s = s"
    by (simp_all add: store_bot_message_def store_fallback_def accepted_fallback_def)
  then have w: "botpress_webhook now rnd p s = cleanup now s"
    by (cases "isBot p") (simp_all add: botpress_webhook_def)
  show ?thesis
    unfolding w using a
    by (auto dest: timers_cleanup cleanup_sizes simp: arrays_cleanup)
qed

theorem rejected_payload_witness:
  "\<not> truthy (botText empty_payload) \<and> \<not> truthy (botImage empty_payload) \<and>
   store_bot_message 2000 ''zz'' empty_payload collecting_state = collecting_state \<and>
   botpress_webhook 2000 ''zz'' empty_payload collecting_state = cleanup 2000 collecting_state \<and>
   globalMessages (botpress_webhook 2000 ''zz'' empty_payload collecting_state) ''c1'' = Some 0 \<and>
   arrays (botpress_webhook 2000 ''zz'' empty_payload collecting_state) 0 = [1]"
proof -
  have h: "\<not> truthy (botText empty_payload) \<and> \<not> truthy (botImage empty_payload)"
    by (simp add: empty_payload_def)
  have c: "globalMessages collecting_state ''c1'' = Some 0" "arrays collecting_state 0 = [1]"
    "(0::nat) < fresh collecting_state"
    by (simp_all add: collecting_state_def)
  note r = rejected_payload [of empty_payload 2000 "''zz''" collecting_state, OF disjI1, OF h]
  from r c(3) have "arrays (botpress_webhook 2000 ''zz'' empty_payload collecting_state) 0 =
      arrays collecting_state 0"
    by blast
  moreover from r have
    "globalMessages (botpress_webhook 2000 ''zz'' empty_payload collecting_state) =
       globalMessages collecting_state"
    "store_bot_message 2000 ''zz'' empty_payload collecting_state = collecting_state"
    "botpress_webhook 2000 ''zz'' empty_payload collecting_state = cleanup 2000 collecting_state"
    by blast+
  ultimately show ?thesis using h c(1,2) by (simp del: One_nat_def)
qed



text \<open>
  Claim C7. The cleanup pass, run at time \<open>now\<close> in any state a run can reach. An entry of
  \<^verbatim>\<open>botMessages\<close> that is still receiving (not complete, and holding a delivery timeout) is
  kept as it is, whatever the age of its messages. Any other entry keeps exactly its messages
  that are not older than five minutes; when none is left the entry is deleted and the
  delivery timeout it held is no longer pending. The tracked user messages older than five
  minutes are deleted, the others kept.
\<close>

theorem sweep:
  assumes "s = run evs initial_state" and "s' = cleanup now s"
  shows "(\<forall>(k, d)\<in>set (botMessages s).
            (still_receiving s d \<longrightarrow>
               (k, d) \<in> set (botMessages s') \<and> objects s' d = objects s d \<and>
               arrays s' (messages (objects s' d)) = arrays s (messages (objects s d))) \<and>
            (\<not> still_receiving s d \<longrightarrow>
               (if recent (now - retention) s (arrays s (messages (objects s d))) = []
                then map_of (botMessages s') k = None \<and>
                     (\<forall>h. deliveryTimeoutId (objects s d) = Some h \<longrightarrow> timers s' h = None)
                else (k, d) \<in> set (botMessages s') \<and>
                     arrays s' (messages (objects s' d)) =
                       recent (now - retention) s (arrays s (messages (objects s d)))))) \<and>
         userMessages s' = filter (\<lambda>(k, v). now - retention \<le> um_timestamp v) (userMessages s)"
proof -
  have wf: "wf s" by (simp add: assms(1) wf_run)
  have "userMessages s' = filter (\<lambda>(k, v). now - retention \<le> um_timestamp v) (userMessages s)"
    by (simp add: assms(2) userMessages_cleanup not_less)
  with cleanup_entry_of[OF wf, of _ _ now] show ?thesis
    unfolding assms(2) by auto
qed

end
